theory Spec2Isabelle
  imports Complex_Main "HOL-Library.Multiset"
begin

section \<open>JavaScript numbers\<close>

text \<open>
  A JavaScript number is modelled as a real number, one of the two infinities, or NaN;
  the two zeros are one number. \<open>undefined\<close> used as an operand of arithmetic converts
  to NaN. The operations of this section are the exact ones (no rounding error, no
  overflow), with the cases for NaN and the infinities that the language gives. They are
  what doubles compute on the whole numbers of \<open>isOpen\<close>, and the difference of two
  doubles has the sign of their exact difference. Where rounding matters, in
  \<open>haversine\<close>, the arithmetic is a parameter.
\<close>

datatype jsnum = NaN | Num real | PosInf | NegInf

fun jneg :: "jsnum \<Rightarrow> jsnum" where
  "jneg NaN = NaN"
| "jneg (Num a) = Num (- a)"
| "jneg PosInf = NegInf"
| "jneg NegInf = PosInf"

fun jadd :: "jsnum \<Rightarrow> jsnum \<Rightarrow> jsnum" where
  "jadd NaN _ = NaN"
| "jadd _ NaN = NaN"
| "jadd (Num a) (Num b) = Num (a + b)"
| "jadd PosInf NegInf = NaN"
| "jadd NegInf PosInf = NaN"
| "jadd PosInf _ = PosInf"
| "jadd _ PosInf = PosInf"
| "jadd NegInf _ = NegInf"
| "jadd _ NegInf = NegInf"

definition jsub :: "jsnum \<Rightarrow> jsnum \<Rightarrow> jsnum" where
  "jsub a b = jadd a (jneg b)"

fun jsign :: "jsnum \<Rightarrow> int" where
  "jsign NaN = 0"
| "jsign (Num a) = (if a < 0 then - 1 else if a = 0 then 0 else 1)"
| "jsign PosInf = 1"
| "jsign NegInf = - 1"

fun jmul :: "jsnum \<Rightarrow> jsnum \<Rightarrow> jsnum" where
  "jmul NaN _ = NaN"
| "jmul _ NaN = NaN"
| "jmul (Num a) (Num b) = Num (a * b)"
| "jmul a b =
     (if jsign a * jsign b = 0 then NaN
      else if jsign a * jsign b < 0 then NegInf else PosInf)"

fun jlt :: "jsnum \<Rightarrow> jsnum \<Rightarrow> bool" where
  "jlt NaN _ = False"
| "jlt _ NaN = False"
| "jlt (Num a) (Num b) = (a < b)"
| "jlt NegInf NegInf = False"
| "jlt NegInf _ = True"
| "jlt _ NegInf = False"
| "jlt PosInf _ = False"
| "jlt _ PosInf = True"

definition jge :: "jsnum \<Rightarrow> jsnum \<Rightarrow> bool" where
  "jge a b = (a \<noteq> NaN \<and> b \<noteq> NaN \<and> \<not> jlt a b)"

section \<open>Strings to numbers\<close>

text \<open>
  Strings are lists of 8-bit characters, so the model covers ASCII text. The white space
  of the numeric grammar is then TAB, LF, VT, FF, CR and SP.
\<close>

definition isWS :: "char \<Rightarrow> bool" where
  "isWS c = (c \<in> set [CHR 0x09, CHR 0x0A, CHR 0x0B, CHR 0x0C, CHR 0x0D, CHR 0x20])"

definition isDigit :: "char \<Rightarrow> bool" where
  "isDigit c = (c \<in> set ''0123456789'')"

definition digitVal :: "char \<Rightarrow> nat" where
  "digitVal c = (of_char c :: nat) - 48"

definition digitsVal :: "string \<Rightarrow> nat" where
  "digitsVal ds = foldl (\<lambda>a c. 10 * a + digitVal c) 0 ds"

definition trim :: "string \<Rightarrow> string" where
  "trim s = rev (dropWhile isWS (rev (dropWhile isWS s)))"

text \<open>
  \<open>ExponentPart\<close> of the grammar: \<open>e\<close> or \<open>E\<close>, an optional sign and at least one
  digit. When the text at hand does not start with a complete exponent the mantissa
  stands alone and the text is left unread.
\<close>

definition withExponent :: "real \<Rightarrow> string \<Rightarrow> real \<times> string" where
  "withExponent m s =
     (case s of
        [] \<Rightarrow> (m, s)
      | c # r \<Rightarrow>
          if c = CHR ''e'' \<or> c = CHR ''E'' then
            (case r of
               [] \<Rightarrow> (m, s)
             | d # r' \<Rightarrow>
                 if d = CHR ''+'' then
                   (if takeWhile isDigit r' = [] then (m, s)
                    else (m * 10 ^ digitsVal (takeWhile isDigit r'), dropWhile isDigit r'))
                 else if d = CHR ''-'' then
                   (if takeWhile isDigit r' = [] then (m, s)
                    else (m / 10 ^ digitsVal (takeWhile isDigit r'), dropWhile isDigit r'))
                 else
                   (if takeWhile isDigit r = [] then (m, s)
                    else (m * 10 ^ digitsVal (takeWhile isDigit r), dropWhile isDigit r)))
          else (m, s))"

text \<open>
  The longest prefix that is a \<open>StrUnsignedDecimalLiteral\<close>, with its value and the
  unread rest: \<open>Infinity\<close>, or digits with an optional fraction and exponent.
\<close>

definition parseUnsigned :: "string \<Rightarrow> (jsnum \<times> string) option" where
  "parseUnsigned s =
     (if take 8 s = ''Infinity'' then Some (PosInf, drop 8 s)
      else
        let ip = takeWhile isDigit s; r1 = dropWhile isDigit s in
        (case r1 of
           [] \<Rightarrow> if ip = [] then None else Some (Num (real (digitsVal ip)), [])
         | c # r2 \<Rightarrow>
             if c = CHR ''.'' then
               (let fp = takeWhile isDigit r2; r3 = dropWhile isDigit r2 in
                if ip = [] \<and> fp = [] then None
                else
                  (case withExponent
                          (real (digitsVal ip) + real (digitsVal fp) / 10 ^ length fp) r3 of
                     (v, rest) \<Rightarrow> Some (Num v, rest)))
             else if ip = [] then None
             else (case withExponent (real (digitsVal ip)) r1 of
                     (v, rest) \<Rightarrow> Some (Num v, rest))))"

definition parseDecimal :: "string \<Rightarrow> (jsnum \<times> string) option" where
  "parseDecimal s =
     (case s of
        [] \<Rightarrow> None
      | c # r \<Rightarrow>
          if c = CHR ''+'' then parseUnsigned r
          else if c = CHR ''-'' then
            (case parseUnsigned r of None \<Rightarrow> None | Some (v, rest) \<Rightarrow> Some (jneg v, rest))
          else parseUnsigned s)"

text \<open>\<open>parseFloat\<close>: leading white space is skipped, trailing text is ignored.\<close>

definition parseFloat :: "string \<Rightarrow> jsnum" where
  "parseFloat s =
     (case parseDecimal (dropWhile isWS s) of None \<Rightarrow> NaN | Some (v, _) \<Rightarrow> v)"

text \<open>Binary, octal and hexadecimal integer literals (\<open>0b\<close>, \<open>0o\<close>, \<open>0x\<close>).\<close>

definition baseDigit :: "char \<Rightarrow> nat option" where
  "baseDigit c =
     (let n = (of_char c :: nat) in
      if 48 \<le> n \<and> n \<le> 57 then Some (n - 48)
      else if 97 \<le> n \<and> n \<le> 102 then Some (n - 87)
      else if 65 \<le> n \<and> n \<le> 70 then Some (n - 55)
      else None)"

definition inBase :: "nat \<Rightarrow> char \<Rightarrow> bool" where
  "inBase b c = (case baseDigit c of None \<Rightarrow> False | Some d \<Rightarrow> d < b)"

definition baseVal :: "nat \<Rightarrow> string \<Rightarrow> nat" where
  "baseVal b ds = foldl (\<lambda>a c. b * a + (case baseDigit c of None \<Rightarrow> 0 | Some d \<Rightarrow> d)) 0 ds"

definition nonDecimal :: "string \<Rightarrow> jsnum option" where
  "nonDecimal s =
     (case s of
        z # p # ds \<Rightarrow>
          if z = CHR ''0'' \<and> ds \<noteq> [] then
            (if (p = CHR ''x'' \<or> p = CHR ''X'') \<and> list_all (inBase 16) ds
               then Some (Num (real (baseVal 16 ds)))
             else if (p = CHR ''o'' \<or> p = CHR ''O'') \<and> list_all (inBase 8) ds
               then Some (Num (real (baseVal 8 ds)))
             else if (p = CHR ''b'' \<or> p = CHR ''B'') \<and> list_all (inBase 2) ds
               then Some (Num (real (baseVal 2 ds)))
             else None)
          else None
      | _ \<Rightarrow> None)"

text \<open>
  \<open>Number(s)\<close> on a string: white space is trimmed at both ends, the empty string is 0,
  and the whole remaining text must be one numeric literal; anything else is NaN.
\<close>

definition Number :: "string \<Rightarrow> jsnum" where
  "Number s =
     (let t = trim s in
      if t = [] then Num 0
      else
        (case nonDecimal t of
           Some v \<Rightarrow> v
         | None \<Rightarrow>
             (case parseDecimal t of
                Some (v, []) \<Rightarrow> v
              | _ \<Rightarrow> NaN)))"

text \<open>\<open>s.split(c)\<close> for a one-character separator: never empty, \<open>"".split(c) = [""]\<close>.\<close>

fun split_str :: "char \<Rightarrow> string \<Rightarrow> string list" where
  "split_str c [] = [[]]"
| "split_str c (x # xs) =
     (if x = c then [] # split_str c xs
      else (case split_str c xs of
              [] \<Rightarrow> [[x]]
            | w # ws \<Rightarrow> (x # w) # ws))"

section \<open>The open/closed evaluator (HomePage.js, \<open>isOpen\<close>)\<close>

text \<open>
  \<open>const [h, m] = t.split(":").map(Number); h * 60 + m\<close>. The source writes this
  expression twice, for the opening and the closing time. A part that the array does not
  have is \<open>undefined\<close>, which the arithmetic converts to NaN.
\<close>

definition elemOrUndefined :: "jsnum list \<Rightarrow> nat \<Rightarrow> jsnum" where
  "elemOrUndefined xs i = (if i < length xs then xs ! i else NaN)"

definition minutesOf :: "string \<Rightarrow> jsnum" where
  "minutesOf t =
     (let parts = map Number (split_str CHR '':'' t) in
      jadd (jmul (elemOrUndefined parts 0) (Num 60)) (elemOrUndefined parts 1))"

text \<open>
  The source reads the clock (\<open>now.getHours() * 60 + now.getMinutes()\<close>); the model
  takes that value as the argument \<open>currentMinutes\<close>. An absent bound is \<open>None\<close>;
  \<open>!openTime\<close> is also true of the empty string.
\<close>

definition isOpen :: "string option \<Rightarrow> string option \<Rightarrow> int \<Rightarrow> bool" where
  "isOpen openTime closeTime currentMinutes =
     (case (openTime, closeTime) of
        (Some ot, Some ct) \<Rightarrow>
          if ot = [] \<or> ct = [] then False
          else
            let cur = Num (of_int currentMinutes);
                openMinutes = minutesOf ot;
                closeMinutes = minutesOf ct
            in
              if jlt closeMinutes openMinutes then
                (let closeMinutes' = jadd closeMinutes (Num (24 * 60)) in
                 if jlt cur openMinutes then
                   jlt (jadd cur (Num (24 * 60))) closeMinutes'
                   \<or> jlt cur (jsub closeMinutes' (Num (24 * 60)))
                 else jge cur openMinutes \<and> jlt cur closeMinutes')
              else jge cur openMinutes \<and> jlt cur closeMinutes
      | _ \<Rightarrow> False)"

text \<open>
  The spec's reading of a well-formed \<open>"HH:MM"\<close> string: two digits, a colon, two
  digits, standing for \<open>HH * 60 + MM\<close> minutes after midnight.
\<close>

definition wellFormedHHMM :: "string \<Rightarrow> bool" where
  "wellFormedHHMM s =
     (case s of
        [a, b, c, d, e] \<Rightarrow> isDigit a \<and> isDigit b \<and> c = CHR '':'' \<and> isDigit d \<and> isDigit e
      | _ \<Rightarrow> False)"

definition hhmmMinutes :: "string \<Rightarrow> int" where
  "hhmmMinutes s =
     (case s of
        [a, b, c, d, e] \<Rightarrow>
          int ((10 * digitVal a + digitVal b) * 60 + (10 * digitVal d + digitVal e))
      | _ \<Rightarrow> 0)"

text \<open>
  What the code takes for unreadable: a string without a colon (the minute part is
  \<open>undefined\<close>), or one whose hour or minute part \<open>Number\<close> turns into NaN.
\<close>

definition unreadable :: "string \<Rightarrow> bool" where
  "unreadable t =
     (case split_str CHR '':'' t of
        h # m # _ \<Rightarrow> Number h = NaN \<or> Number m = NaN
      | _ \<Rightarrow> True)"

section \<open>Distance ranking (useGeolocation.js)\<close>

text \<open>
  The \<open>Math\<close> functions on JavaScript numbers. On finite arguments they are the real
  functions; the cases for NaN and the infinities are those of the language.
\<close>

fun jdiv :: "jsnum \<Rightarrow> jsnum \<Rightarrow> jsnum" where
  "jdiv NaN _ = NaN"
| "jdiv _ NaN = NaN"
| "jdiv (Num a) (Num b) =
     (if b \<noteq> 0 then Num (a / b)
      else if a = 0 then NaN else if 0 < a then PosInf else NegInf)"
| "jdiv (Num a) _ = Num 0"
| "jdiv PosInf (Num b) = (if b < 0 then NegInf else PosInf)"
| "jdiv NegInf (Num b) = (if b < 0 then PosInf else NegInf)"
| "jdiv _ _ = NaN"

fun jsin :: "jsnum \<Rightarrow> jsnum" where
  "jsin (Num a) = Num (sin a)"
| "jsin _ = NaN"

fun jcos :: "jsnum \<Rightarrow> jsnum" where
  "jcos (Num a) = Num (cos a)"
| "jcos _ = NaN"

fun jsqrt :: "jsnum \<Rightarrow> jsnum" where
  "jsqrt (Num a) = (if a < 0 then NaN else Num (sqrt a))"
| "jsqrt PosInf = PosInf"
| "jsqrt _ = NaN"

definition atan2 :: "real \<Rightarrow> real \<Rightarrow> real" where
  "atan2 y x =
     (if 0 < x then arctan (y / x)
      else if x < 0 then (if 0 \<le> y then arctan (y / x) + pi else arctan (y / x) - pi)
      else if 0 < y then pi / 2 else if y < 0 then - (pi / 2) else 0)"

fun jatan2 :: "jsnum \<Rightarrow> jsnum \<Rightarrow> jsnum" where
  "jatan2 NaN _ = NaN"
| "jatan2 _ NaN = NaN"
| "jatan2 (Num y) (Num x) = Num (atan2 y x)"
| "jatan2 (Num y) PosInf = Num 0"
| "jatan2 (Num y) NegInf = Num (if 0 \<le> y then pi else - pi)"
| "jatan2 PosInf (Num x) = Num (pi / 2)"
| "jatan2 NegInf (Num x) = Num (- (pi / 2))"
| "jatan2 PosInf PosInf = Num (pi / 4)"
| "jatan2 PosInf NegInf = Num (3 * pi / 4)"
| "jatan2 NegInf PosInf = Num (- (pi / 4))"
| "jatan2 NegInf NegInf = Num (- (3 * pi / 4))"

text \<open>
  \<open>parseFloat(x.toFixed(d))\<close>. \<open>toFixed\<close> takes the integer \<open>n\<close> with \<open>n / 10^d\<close>
  nearest to the magnitude of \<open>x\<close>, the larger one on a tie, and puts the sign back;
  from \<open>10^21\<close> on it prints the number itself. \<open>parseFloat\<close> reads the printed digits
  back, also \<open>"NaN"\<close> (as NaN) and \<open>"Infinity"\<close>.
\<close>

definition toFixedReal :: "nat \<Rightarrow> real \<Rightarrow> real" where
  "toFixedReal d x =
     (if 10 ^ 21 \<le> \<bar>x\<bar> then x
      else if x < 0 then - (of_int \<lfloor>(- x) * 10 ^ d + 1 / 2\<rfloor> / 10 ^ d)
      else of_int \<lfloor>x * 10 ^ d + 1 / 2\<rfloor> / 10 ^ d)"

fun parseFloat_toFixed :: "nat \<Rightarrow> jsnum \<Rightarrow> jsnum" where
  "parseFloat_toFixed d (Num x) = Num (toFixedReal d x)"
| "parseFloat_toFixed d v = v"

text \<open>
  The floating-point arithmetic of the engine. What an operation returns on numbers is
  the engine's: the results are rounded to doubles, and \<open>Math.sin\<close>, \<open>Math.cos\<close> and
  \<open>Math.atan2\<close> are approximations that the language does not fix. It is therefore a
  parameter of \<open>haversine\<close>. What is fixed is that an operation with a NaN operand
  returns NaN, and that is written out. The sign of a zero is not kept, and it does
  not reach the result of \<open>haversine\<close>: the function divides by 180 and by 2 only, and
  the second argument of its \<open>atan2\<close> is the square root of a difference, which is
  never the negative zero.
\<close>

record arith =
  fp_add :: "jsnum \<Rightarrow> jsnum \<Rightarrow> jsnum"
  fp_sub :: "jsnum \<Rightarrow> jsnum \<Rightarrow> jsnum"
  fp_mul :: "jsnum \<Rightarrow> jsnum \<Rightarrow> jsnum"
  fp_div :: "jsnum \<Rightarrow> jsnum \<Rightarrow> jsnum"
  fp_sin :: "jsnum \<Rightarrow> jsnum"
  fp_cos :: "jsnum \<Rightarrow> jsnum"
  fp_sqrt :: "jsnum \<Rightarrow> jsnum"
  fp_atan2 :: "jsnum \<Rightarrow> jsnum \<Rightarrow> jsnum"
  fp_PI :: jsnum

definition fadd :: "arith \<Rightarrow> jsnum \<Rightarrow> jsnum \<Rightarrow> jsnum" where
  "fadd fa x y = (if x = NaN \<or> y = NaN then NaN else fp_add fa x y)"

definition fsub :: "arith \<Rightarrow> jsnum \<Rightarrow> jsnum \<Rightarrow> jsnum" where
  "fsub fa x y = (if x = NaN \<or> y = NaN then NaN else fp_sub fa x y)"

definition fmul :: "arith \<Rightarrow> jsnum \<Rightarrow> jsnum \<Rightarrow> jsnum" where
  "fmul fa x y = (if x = NaN \<or> y = NaN then NaN else fp_mul fa x y)"

definition fdiv :: "arith \<Rightarrow> jsnum \<Rightarrow> jsnum \<Rightarrow> jsnum" where
  "fdiv fa x y = (if x = NaN \<or> y = NaN then NaN else fp_div fa x y)"

definition fsin :: "arith \<Rightarrow> jsnum \<Rightarrow> jsnum" where
  "fsin fa x = (if x = NaN then NaN else fp_sin fa x)"

definition fcos :: "arith \<Rightarrow> jsnum \<Rightarrow> jsnum" where
  "fcos fa x = (if x = NaN then NaN else fp_cos fa x)"

definition fsqrt :: "arith \<Rightarrow> jsnum \<Rightarrow> jsnum" where
  "fsqrt fa x = (if x = NaN then NaN else fp_sqrt fa x)"

definition fatan2 :: "arith \<Rightarrow> jsnum \<Rightarrow> jsnum \<Rightarrow> jsnum" where
  "fatan2 fa y x = (if y = NaN \<or> x = NaN then NaN else fp_atan2 fa y x)"

text \<open>
  The arithmetic without rounding error, for worked examples: the operations are those of
  the real numbers and \<open>Math.PI\<close> is \<open>pi\<close>.
\<close>

definition exactArith :: arith where
  "exactArith =
     \<lparr>fp_add = jadd, fp_sub = jsub, fp_mul = jmul, fp_div = jdiv, fp_sin = jsin,
      fp_cos = jcos, fp_sqrt = jsqrt, fp_atan2 = jatan2, fp_PI = Num pi\<rparr>"

text \<open>The Haversine function of the source, operation by operation.\<close>

definition haversine :: "arith \<Rightarrow> jsnum \<Rightarrow> jsnum \<Rightarrow> jsnum \<Rightarrow> jsnum \<Rightarrow> jsnum" where
  "haversine fa lat1 lng1 lat2 lng2 =
     (let R = Num 6371;
          dLat = fmul fa (fsub fa lat2 lat1) (fdiv fa (fp_PI fa) (Num 180));
          dLng = fmul fa (fsub fa lng2 lng1) (fdiv fa (fp_PI fa) (Num 180));
          a = fadd fa
                (fmul fa (fsin fa (fdiv fa dLat (Num 2))) (fsin fa (fdiv fa dLat (Num 2))))
                (fmul fa
                  (fmul fa
                    (fmul fa (fcos fa (fmul fa lat1 (fdiv fa (fp_PI fa) (Num 180))))
                             (fcos fa (fmul fa lat2 (fdiv fa (fp_PI fa) (Num 180)))))
                    (fsin fa (fdiv fa dLng (Num 2))))
                  (fsin fa (fdiv fa dLng (Num 2))));
          c = fmul fa (Num 2) (fatan2 fa (fsqrt fa a) (fsqrt fa (fsub fa (Num 1) a)))
      in fmul fa R c)"

text \<open>
  A restaurant document. Every field the code reads may be missing (\<open>None\<close> stands for
  \<open>undefined\<close>; a field stored as \<open>null\<close> is not covered); \<open>distance\<close> is the
  property that \<open>sortByDistance\<close> adds. The visitor's position \<open>{lat, lng}\<close> is a pair,
  latitude first.
\<close>

record listing =
  key :: string
  name :: "string option"
  city :: "string option"
  categories :: "string list option"
  address :: "string option"
  lat :: "real option"
  lng :: "real option"
  distance :: "jsnum option"

type_synonym coords = "real \<times> real"

text \<open>A property read as a number: a missing one is \<open>undefined\<close>, hence NaN.\<close>

fun toNumber :: "real option \<Rightarrow> jsnum" where
  "toNumber None = NaN"
| "toNumber (Some x) = Num x"

fun propNumber :: "jsnum option \<Rightarrow> jsnum" where
  "propNumber None = NaN"
| "propNumber (Some v) = v"

text \<open>The function mapped over the list: \<open>{...item, distance: ...}\<close>.\<close>

definition withDistance :: "arith \<Rightarrow> coords \<Rightarrow> listing \<Rightarrow> listing" where
  "withDistance fa c item =
     item\<lparr>distance :=
       Some (parseFloat_toFixed 2
              (haversine fa (Num (fst c)) (Num (snd c))
                 (toNumber (lat item)) (toNumber (lng item))))\<rparr>"

text \<open>
  The comparator \<open>(a, b) => a.distance - b.distance\<close>. The sort uses the sign of the
  difference only, and the difference of two doubles has the sign of their exact
  difference.
\<close>

definition byDistance :: "listing \<Rightarrow> listing \<Rightarrow> jsnum" where
  "byDistance a b = jsub (propNumber (distance a)) (propNumber (distance b))"

text \<open>
  \<open>Array.prototype.sort\<close> with a comparator. The language calls a comparator consistent
  on the elements when it never answers NaN for two of them and its answers \<open>< 0\<close>,
  \<open>= 0\<close>, \<open>> 0\<close> order them in classes. For a consistent comparator the result is
  fixed: the elements in ascending order, equal ones in their input order. For any other
  comparator the result is a rearrangement of the input whose order the language leaves
  to the engine. So the sort is a relation between the input and the results that may
  come out.
\<close>

definition consistentComparator :: "('a \<Rightarrow> 'a \<Rightarrow> jsnum) \<Rightarrow> 'a list \<Rightarrow> bool" where
  "consistentComparator cmp xs =
     (\<forall>a \<in> set xs. \<forall>b \<in> set xs. \<forall>c \<in> set xs.
        cmp a b \<noteq> NaN
        \<and> cmp a a = Num 0
        \<and> (cmp a b = Num 0 \<longrightarrow> cmp b a = Num 0)
        \<and> (cmp a b = Num 0 \<and> cmp b c = Num 0 \<longrightarrow> cmp a c = Num 0)
        \<and> (jlt (cmp a b) (Num 0) \<and> jlt (cmp b c) (Num 0) \<longrightarrow> jlt (cmp a c) (Num 0))
        \<and> (jlt (Num 0) (cmp a b) \<and> jlt (Num 0) (cmp b c) \<longrightarrow> jlt (Num 0) (cmp a c)))"

text \<open>
  The stable sort, by insertion from the right: an element moves past the elements that it
  compares strictly greater than.
\<close>

fun insertSorted :: "('a \<Rightarrow> 'a \<Rightarrow> jsnum) \<Rightarrow> 'a \<Rightarrow> 'a list \<Rightarrow> 'a list" where
  "insertSorted cmp x [] = [x]"
| "insertSorted cmp x (y # ys) =
     (if jlt (Num 0) (cmp x y) then y # insertSorted cmp x ys else x # y # ys)"

definition stableSort :: "('a \<Rightarrow> 'a \<Rightarrow> jsnum) \<Rightarrow> 'a list \<Rightarrow> 'a list" where
  "stableSort cmp xs = foldr (insertSorted cmp) xs []"

definition arraySort :: "('a \<Rightarrow> 'a \<Rightarrow> jsnum) \<Rightarrow> 'a list \<Rightarrow> 'a list \<Rightarrow> bool" where
  "arraySort cmp xs out =
     (mset out = mset xs \<and> (consistentComparator cmp xs \<longrightarrow> out = stableSort cmp xs))"

text \<open>
  \<open>sortByDistance\<close>: \<open>sortByDistance fa coords list out\<close> says that \<open>out\<close> is a result
  the call may return for \<open>list\<close>, with the position \<open>coords\<close> and the arithmetic \<open>fa\<close>.
\<close>

definition sortByDistance :: "arith \<Rightarrow> coords option \<Rightarrow> listing list \<Rightarrow> listing list \<Rightarrow> bool" where
  "sortByDistance fa coords list out =
     (case coords of
        None \<Rightarrow> out = list
      | Some c \<Rightarrow> arraySort byDistance (map (withDistance fa c) list) out)"

text \<open>
  The spec's great-circle distance in kilometres: the Haversine formula
  \<open>2 R arcsin (sqrt h)\<close> with \<open>R = 6371\<close>, angles in degrees.
\<close>

definition radians :: "real \<Rightarrow> real" where
  "radians x = x * pi / 180"

definition hav :: "coords \<Rightarrow> coords \<Rightarrow> real" where
  "hav p q =
     (sin ((radians (fst q) - radians (fst p)) / 2))\<^sup>2
     + cos (radians (fst p)) * cos (radians (fst q))
       * (sin ((radians (snd q) - radians (snd p)) / 2))\<^sup>2"

definition greatCircleKm :: "coords \<Rightarrow> coords \<Rightarrow> real" where
  "greatCircleKm p q = 2 * 6371 * arcsin (sqrt (hav p q))"

definition roundHalfUp :: "nat \<Rightarrow> real \<Rightarrow> real" where
  "roundHalfUp d x = of_int \<lfloor>x * 10 ^ d + 1 / 2\<rfloor> / 10 ^ d"

text \<open>
  The spec's \<open>RankedListing\<close>: a listing with coordinates carries its distance from the
  position, rounded to two decimals; one without coordinates carries none.
\<close>

definition ranked :: "coords \<Rightarrow> listing \<Rightarrow> listing" where
  "ranked c r =
     (case (lat r, lng r) of
        (Some la, Some lo) \<Rightarrow>
          r\<lparr>distance := Some (Num (roundHalfUp 2 (greatCircleKm c (la, lo))))\<rparr>
      | _ \<Rightarrow> r\<lparr>distance := None\<rparr>)"

text \<open>JavaScript's \<open><=\<close>, and a list in ascending order of \<open>distance\<close> under it.\<close>

definition jle :: "jsnum \<Rightarrow> jsnum \<Rightarrow> bool" where
  "jle a b = (a \<noteq> NaN \<and> b \<noteq> NaN \<and> \<not> jlt b a)"

definition ascendingByDistance :: "listing list \<Rightarrow> bool" where
  "ascendingByDistance rs =
     sorted_wrt (\<lambda>a b. jle (propNumber (distance a)) (propNumber (distance b))) rs"

definition hasCoords :: "listing \<Rightarrow> bool" where
  "hasCoords r = (lat r \<noteq> None \<and> lng r \<noteq> None)"

definition unannotated :: "listing \<Rightarrow> listing" where
  "unannotated r = r\<lparr>distance := None\<rparr>"

text \<open>
  The distance a listing carries, as a real number (0 where it carries none or NaN).
\<close>

definition distanceKm :: "listing \<Rightarrow> real" where
  "distanceKm r = (case distance r of Some (Num d) \<Rightarrow> d | _ \<Rightarrow> 0)"

text \<open>
  The spec's scenario: a visitor at (0.30, 32.58), listings A at (0.31, 32.59), B at
  (0.40, 32.70) and C without coordinates.
\<close>

definition visitor :: coords where
  "visitor = (30 / 100, 3258 / 100)"

definition listingA :: listing where
  "listingA = \<lparr>key = ''A'', name = Some ''A'', city = Some ''Kampala'', categories = Some [],
     address = None, lat = Some (31 / 100), lng = Some (3259 / 100), distance = None\<rparr>"

definition listingB :: listing where
  "listingB = \<lparr>key = ''B'', name = Some ''B'', city = Some ''Kampala'', categories = Some [],
     address = None, lat = Some (40 / 100), lng = Some (3270 / 100), distance = None\<rparr>"

definition listingC :: listing where
  "listingC = \<lparr>key = ''C'', name = Some ''C'', city = Some ''Kampala'', categories = Some [],
     address = None, lat = None, lng = None, distance = None\<rparr>"

section \<open>The filter pipeline (HomePage.js)\<close>

definition toLowerChar :: "char \<Rightarrow> char" where
  "toLowerChar c =
     (case map_of (zip ''ABCDEFGHIJKLMNOPQRSTUVWXYZ'' ''abcdefghijklmnopqrstuvwxyz'') c of
        None \<Rightarrow> c
      | Some l \<Rightarrow> l)"

definition toLowerCase :: "string \<Rightarrow> string" where
  "toLowerCase s = map toLowerChar s"

fun startsWith :: "string \<Rightarrow> string \<Rightarrow> bool" where
  "startsWith s [] = True"
| "startsWith [] (q # qs) = False"
| "startsWith (x # xs) (q # qs) = (x = q \<and> startsWith xs qs)"

text \<open>\<open>s.includes(q)\<close> on strings: \<open>q\<close> occurs in \<open>s\<close> as a substring.\<close>

fun includes_str :: "string \<Rightarrow> string \<Rightarrow> bool" where
  "includes_str [] q = (q = [])"
| "includes_str (x # xs) q = (startsWith (x # xs) q \<or> includes_str xs q)"

text \<open>\<open>(r.name || "")\<close> and \<open>(r.categories || [])\<close>.\<close>

fun orEmpty :: "'a list option \<Rightarrow> 'a list" where
  "orEmpty None = []"
| "orEmpty (Some s) = s"

record criteria =
  selectedDistrict :: string
  selectedCat :: string
  searchQuery :: string

text \<open>The callback of \<open>restaurants.filter\<close>.\<close>

definition keeps :: "criteria \<Rightarrow> listing \<Rightarrow> bool" where
  "keeps crit r =
     (let matchDist = (selectedDistrict crit = ''All Districts''
                       \<or> city r = Some (selectedDistrict crit));
          matchCat = (selectedCat crit = ''all''
                      \<or> selectedCat crit \<in> set (orEmpty (categories r)));
          q = toLowerCase (searchQuery crit);
          matchQ = (q = []
                    \<or> includes_str (toLowerCase (orEmpty (name r))) q
                    \<or> includes_str (toLowerCase (orEmpty (city r))) q
                    \<or> list_ex (\<lambda>c. includes_str c q) (orEmpty (categories r))
                    \<or> includes_str (toLowerCase (orEmpty (address r))) q)
      in matchDist \<and> matchCat \<and> matchQ)"

definition filtered :: "criteria \<Rightarrow> listing list \<Rightarrow> listing list" where
  "filtered crit restaurants = filter (keeps crit) restaurants"

text \<open>
  \<open>displayed = gpsActive ? sortByDistance(filtered) : filtered\<close>, as a relation to the
  lists that may be shown, like \<open>sortByDistance\<close>.
\<close>

definition displayed ::
  "bool \<Rightarrow> arith \<Rightarrow> coords option \<Rightarrow> criteria \<Rightarrow> listing list \<Rightarrow> listing list \<Rightarrow> bool"
  where
  "displayed gpsActive fa coords crit restaurants out =
     (if gpsActive then sortByDistance fa coords (filtered crit restaurants) out
      else out = filtered crit restaurants)"

text \<open>The three predicates in the spec's words.\<close>

definition districtPredicate :: "criteria \<Rightarrow> listing \<Rightarrow> bool" where
  "districtPredicate crit r =
     (selectedDistrict crit = ''All Districts'' \<or> city r = Some (selectedDistrict crit))"

definition categoryPredicate :: "criteria \<Rightarrow> listing \<Rightarrow> bool" where
  "categoryPredicate crit r =
     (selectedCat crit = ''all'' \<or> selectedCat crit \<in> set (orEmpty (categories r)))"

definition matchesIgnoringCase :: "string \<Rightarrow> string \<Rightarrow> bool" where
  "matchesIgnoringCase s q = includes_str (toLowerCase s) (toLowerCase q)"

definition textPredicate :: "criteria \<Rightarrow> listing \<Rightarrow> bool" where
  "textPredicate crit r =
     (searchQuery crit = []
      \<or> matchesIgnoringCase (orEmpty (name r)) (searchQuery crit)
      \<or> matchesIgnoringCase (orEmpty (city r)) (searchQuery crit)
      \<or> matchesIgnoringCase (orEmpty (address r)) (searchQuery crit)
      \<or> list_ex (\<lambda>c. matchesIgnoringCase c (searchQuery crit)) (orEmpty (categories r)))"

definition lowerCaseCategories :: "listing \<Rightarrow> bool" where
  "lowerCaseCategories r = list_all (\<lambda>c. toLowerCase c = c) (orEmpty (categories r))"

definition noConstraint :: criteria where
  "noConstraint = \<lparr>selectedDistrict = ''All Districts'', selectedCat = ''all'', searchQuery = []\<rparr>"

definition grill :: listing where
  "grill = \<lparr>key = ''G'', name = Some ''Grill House'', city = Some ''Kampala'',
     categories = Some [''BBQ''], address = Some ''Plot 1'', lat = None, lng = None,
     distance = None\<rparr>"

definition mira :: listing where
  "mira = \<lparr>key = ''M'', name = Some ''Mama Mira'', city = Some ''Kampala'',
     categories = Some [''local'', ''matooke''], address = Some ''Kabalagala'',
     lat = Some (3103 / 10000), lng = Some (325816 / 10000), distance = None\<rparr>"

section \<open>The editable-pin map (MapComponents.js, \<open>OwnerMap\<close>)\<close>

text \<open>
  A position \<open>{lat, lng}\<close> of the component is a pair of JavaScript numbers: the props
  come from the form, where \<open>handleGeocode\<close> writes what \<open>parseFloat\<close> returns.
\<close>

type_synonym latLng = "jsnum \<times> jsnum"

definition latLngOf :: "coords \<Rightarrow> latLng" where
  "latLngOf p = (Num (fst p), Num (snd p))"

text \<open>
  What the component holds: whether the map and its marker exist, the marker's position,
  the zoom, the views that the map has been asked for (centre and zoom, oldest first), the
  \<open>pinCoords\<close> state, and the positions that have been passed to \<open>onPinChange\<close>, oldest
  first. \<open>hasOnPinChange\<close> says whether the parent gave a handler.
\<close>

record ownerMap =
  mounted :: bool
  marker :: latLng
  zoom :: nat
  views :: "(latLng \<times> nat) list"
  pinCoords :: latLng
  hasOnPinChange :: bool
  emitted :: "latLng list"

text \<open>
  Leaflet is not part of the source. Two facts about it enter: a position with a NaN
  coordinate is refused (the constructor of \<open>LatLng\<close> throws), and a view is asked of the
  map, which the map may fail to show; whether it can is the parameter \<open>viewOk\<close>. Where
  the centre of the map ends up after \<open>setView\<close> is Leaflet's business and not recorded.
  An error thrown in an effect ends the component.
\<close>

datatype leafletError = InvalidLatLng | ViewFailed

definition invalidLatLng :: "latLng \<Rightarrow> bool" where
  "invalidLatLng p = (fst p = NaN \<or> snd p = NaN)"

text \<open>The first effect: the map with its initial view and the marker.\<close>

definition mountOwnerMap ::
  "(latLng \<Rightarrow> nat \<Rightarrow> bool) \<Rightarrow> latLng \<Rightarrow> bool \<Rightarrow> leafletError + ownerMap" where
  "mountOwnerMap viewOk initial handler =
     (if invalidLatLng initial then Inl InvalidLatLng
      else if \<not> viewOk initial 13 then Inl ViewFailed
      else Inr \<lparr>mounted = True, marker = initial, zoom = 13, views = [(initial, 13)],
                pinCoords = initial, hasOnPinChange = handler, emitted = []\<rparr>)"

definition updatePin :: "latLng \<Rightarrow> ownerMap \<Rightarrow> ownerMap" where
  "updatePin latlng st =
     (let coords = (parseFloat_toFixed 6 (fst latlng), parseFloat_toFixed 6 (snd latlng))
      in st\<lparr>pinCoords := coords,
            emitted := (if hasOnPinChange st then emitted st @ [coords] else emitted st)\<rparr>)"

text \<open>
  \<open>dragend\<close>: the marker is where the drag left it, and the handler passes that position
  to \<open>updatePin\<close>. \<open>click\<close> on the map: the marker is set to the clicked position, then
  \<open>updatePin\<close>. The position of an event is a position of Leaflet's own, so it is valid.
\<close>

definition dragend :: "latLng \<Rightarrow> ownerMap \<Rightarrow> ownerMap" where
  "dragend latlng st = updatePin latlng (st\<lparr>marker := latlng\<rparr>)"

definition click :: "latLng \<Rightarrow> ownerMap \<Rightarrow> ownerMap" where
  "click latlng st = updatePin latlng (st\<lparr>marker := latlng\<rparr>)"

text \<open>\<open>a !== b\<close> on numbers: NaN differs from everything, itself included.\<close>

definition strictNotEqual :: "jsnum \<Rightarrow> jsnum \<Rightarrow> bool" where
  "strictNotEqual a b = (a = NaN \<or> b = NaN \<or> a \<noteq> b)"

text \<open>
  The effect that runs when the props \<open>initialLat\<close>, \<open>initialLng\<close> change. It returns
  normally (\<open>Inr\<close>) or throws (\<open>Inl\<close>); the state is the one reached.
\<close>

definition syncProps ::
  "(latLng \<Rightarrow> nat \<Rightarrow> bool) \<Rightarrow> latLng \<Rightarrow> ownerMap \<Rightarrow> (leafletError + unit) \<times> ownerMap" where
  "syncProps viewOk initial st =
     (if mounted st then
        (let currentPos = marker st in
         if strictNotEqual (fst currentPos) (fst initial)
            \<or> strictNotEqual (snd currentPos) (snd initial)
         then
           (if invalidLatLng initial then (Inl InvalidLatLng, st)
            else if \<not> viewOk initial (zoom st) then (Inl ViewFailed, st\<lparr>marker := initial\<rparr>)
            else (Inr (),
                  st\<lparr>marker := initial, views := views st @ [(initial, zoom st)],
                     pinCoords := initial\<rparr>))
         else (Inr (), st))
      else (Inr (), st))"

text \<open>The spec's tolerance of about \<open>1e-6\<close> degrees.\<close>

definition epsilon :: real where
  "epsilon = 1 / 10 ^ 6"

definition withinEpsilon :: "coords \<Rightarrow> coords \<Rightarrow> bool" where
  "withinEpsilon p q = (\<bar>fst p - fst q\<bar> \<le> epsilon \<and> \<bar>snd p - snd q\<bar> \<le> epsilon)"

text \<open>
  A coordinate at six decimals: a whole number of millionths. \<open>roundedTo6 x c\<close> says that
  \<open>c\<close> is \<open>x\<close> rounded to six decimals.
\<close>

definition sixDecimals :: "real \<Rightarrow> bool" where
  "sixDecimals c = (of_int \<lfloor>c * 10 ^ 6\<rfloor> = c * 10 ^ 6)"

definition roundedTo6 :: "real \<Rightarrow> real \<Rightarrow> bool" where
  "roundedTo6 x c = (sixDecimals c \<and> \<bar>c - x\<bar> \<le> 1 / (2 * 10 ^ 6))"

text \<open>A map that shows every view, and a pin mounted on it at (0.3187, 32.5840).\<close>

definition showsAll :: "latLng \<Rightarrow> nat \<Rightarrow> bool" where
  "showsAll p z = True"

definition kampala :: coords where
  "kampala = (3187 / 10000, 32584 / 1000)"

definition kampalaPin :: ownerMap where
  "kampalaPin =
     \<lparr>mounted = True, marker = latLngOf kampala, zoom = 13, views = [(latLngOf kampala, 13)],
      pinCoords = latLngOf kampala, hasOnPinChange = True, emitted = []\<rparr>"

section \<open>The geocode handler (DashboardPage.js, \<open>handleGeocode\<close>)\<close>

text \<open>
  The fields of the form that the handler reads or writes, and around it what the handler
  can change: the toasts shown, the errors written to the console, and the lookups sent
  (each by its query text).
\<close>

record restaurantForm =
  formAddress :: string
  formCity :: string
  formLat :: jsnum
  formLng :: jsnum

datatype jsError = NetworkError | BodyError

record dashboard =
  form :: restaurantForm
  toasts :: "string list"
  consoleErrors :: "jsError list"
  requests :: "string list"

text \<open>
  What the lookup service does with the one request: \<open>fetch\<close> rejects, reading the body
  as JSON rejects, or the body is a list of results, each with the strings \<open>lat\<close> and
  \<open>lon\<close>. A body without an element 0 counts as the empty list.
\<close>

datatype geocodeReply = FetchRejects | JsonRejects | Body "(string \<times> string) list"

text \<open>The \<open>try\<close> block: \<open>Inl\<close> is a thrown error.\<close>

definition tryGeocode :: "geocodeReply \<Rightarrow> dashboard \<Rightarrow> (jsError + unit) \<times> dashboard" where
  "tryGeocode reply st =
     (let q = formAddress (form st) @ '', '' @ formCity (form st) @ '', Uganda'';
          st1 = st\<lparr>requests := requests st @ [q]\<rparr>
      in case reply of
           FetchRejects \<Rightarrow> (Inl NetworkError, st1)
         | JsonRejects \<Rightarrow> (Inl BodyError, st1)
         | Body data \<Rightarrow>
             (case data of
                [] \<Rightarrow> (Inr (), st1)
              | (latText, lonText) # _ \<Rightarrow>
                  (Inr (),
                   st1\<lparr>form := (form st1)\<lparr>formLat := parseFloat latText, formLng := parseFloat lonText\<rparr>,
                       toasts := toasts st1 @ [''Map updated to address'']\<rparr>)))"

definition handleGeocode :: "geocodeReply \<Rightarrow> dashboard \<Rightarrow> (jsError + unit) \<times> dashboard" where
  "handleGeocode reply st =
     (if formAddress (form st) = [] then (Inr (), st)
      else
        (case tryGeocode reply st of
           (Inl e, st') \<Rightarrow> (Inr (), st'\<lparr>consoleErrors := consoleErrors st' @ [e]\<rparr>)
         | (Inr u, st') \<Rightarrow> (Inr u, st')))"

definition geocodeFails :: "geocodeReply \<Rightarrow> bool" where
  "geocodeFails reply = (reply = FetchRejects \<or> reply = JsonRejects \<or> reply = Body [])"

definition kabalagala :: dashboard where
  "kabalagala =
     \<lparr>form = \<lparr>formAddress = ''Kabalagala'', formCity = ''Kampala'',
               formLat = Num (3187 / 10000), formLng = Num (32584 / 1000)\<rparr>,
      toasts = [], consoleErrors = [], requests = []\<rparr>"

section \<open>Example inputs\<close>

definition bbqQuery :: criteria where
  "bbqQuery = \<lparr>selectedDistrict = ''All Districts'', selectedCat = ''all'', searchQuery = ''bbq''\<rparr>"

definition matookeQuery :: criteria where
  "matookeQuery = \<lparr>selectedDistrict = ''Kampala'', selectedCat = ''local'', searchQuery = ''MATO''\<rparr>"

definition nudged :: coords where
  "nudged = (3187001 / 10000000, 32584 / 1000)"

definition geocoded :: coords where
  "geocoded = (3103 / 10000, 325816 / 10000)"

definition dropped :: coords where
  "dropped = (31870049 / 100000000, - (325840005 / 10000000))"

section \<open>Properties of the open/closed evaluator\<close>

subsection \<open>Reading well-formed times\<close>

lemma digit_cases:
  "isDigit c \<Longrightarrow>
     \<not> isWS c \<and> c \<noteq> CHR '':'' \<and> c \<noteq> CHR ''x'' \<and> c \<noteq> CHR ''X'' \<and> c \<noteq> CHR ''o''
     \<and> c \<noteq> CHR ''O'' \<and> c \<noteq> CHR ''b'' \<and> c \<noteq> CHR ''B'' \<and> c \<noteq> CHR ''+''
     \<and> c \<noteq> CHR ''-'' \<and> c \<noteq> CHR ''I'' \<and> c \<noteq> CHR ''n''"
  by (auto simp: isDigit_def isWS_def)

lemma Number_two_digits:
  assumes "isDigit a" "isDigit b"
  shows "Number [a, b] = Num (real (10 * digitVal a + digitVal b))"
  using assms digit_cases[OF assms(1)] digit_cases[OF assms(2)]
  by (simp add: Number_def trim_def nonDecimal_def parseDecimal_def parseUnsigned_def
      digitsVal_def)

lemma minutesOf_wellFormed:
  assumes "wellFormedHHMM s"
  shows "minutesOf s = Num (of_int (hhmmMinutes s))"
proof -
  from assms obtain a b d e where s: "s = [a, b, CHR '':'', d, e]"
    and dg: "isDigit a" "isDigit b" "isDigit d" "isDigit e"
    by (auto simp: wellFormedHHMM_def split: list.splits)
  have sp: "split_str CHR '':'' s = [[a, b], [d, e]]"
    using digit_cases[OF dg(1)] digit_cases[OF dg(2)] digit_cases[OF dg(3)]
      digit_cases[OF dg(4)]
    by (simp add: s)
  have hm: "hhmmMinutes s
      = int ((10 * digitVal a + digitVal b) * 60 + (10 * digitVal d + digitVal e))"
    by (simp add: hhmmMinutes_def s)
  show ?thesis
    unfolding minutesOf_def sp hm
    by (simp add: Number_two_digits dg elemOrUndefined_def)
qed

lemma wellFormed_nonempty: "wellFormedHHMM s \<Longrightarrow> s \<noteq> []"
  by (auto simp: wellFormedHHMM_def)

text \<open>The branches of \<open>isOpen\<close> once both bounds have been read as whole minutes.\<close>

lemma isOpen_Num:
  assumes "ot \<noteq> []" "ct \<noteq> []"
    and "minutesOf ot = Num (of_int a)" "minutesOf ct = Num (of_int b)"
  shows "isOpen (Some ot) (Some ct) n =
     (if b < a then (if n < a then n + 1440 < b + 1440 \<or> n < b else a \<le> n \<and> n < b + 1440)
      else a \<le> n \<and> n < b)"
  using assms by (auto simp: isOpen_def jge_def jsub_def Let_def)

lemma jadd_NaN_right: "jadd a NaN = NaN"
  by (cases a) simp_all

lemma unreadable_minutesOf: "unreadable t \<Longrightarrow> minutesOf t = NaN"
  by (auto simp: unreadable_def minutesOf_def elemOrUndefined_def jadd_NaN_right
      split: list.splits)

lemma isOpen_NaN:
  "minutesOf ot = NaN \<or> minutesOf ct = NaN \<Longrightarrow> \<not> isOpen (Some ot) (Some ct) n"
  by (auto simp: isOpen_def jge_def Let_def)

subsection \<open>Claims about \<open>isOpen\<close>\<close>

text \<open>
  C2. For well-formed \<open>"HH:MM"\<close> bounds with the closing time earlier than the opening
  time (an overnight window) and a minute of the day \<open>now\<close> in \<open>[0, 1440)\<close>,
  \<open>isOpen\<close> is true exactly when \<open>now \<ge> open\<close> or \<open>now < close\<close>: inclusive at the
  opening bound, exclusive at the closing bound.
\<close>

theorem isOpen_overnight:
  assumes "wellFormedHHMM ot" "wellFormedHHMM ct"
    and "hhmmMinutes ct < hhmmMinutes ot" and "0 \<le> now" "now < 1440"
  shows "isOpen (Some ot) (Some ct) now = (hhmmMinutes ot \<le> now \<or> now < hhmmMinutes ct)"
proof -
  have "0 \<le> hhmmMinutes ct" by (simp add: hhmmMinutes_def split: list.splits)
  then show ?thesis
    using assms(3-5)
    by (auto simp add: isOpen_Num[OF wellFormed_nonempty[OF assms(1)]
          wellFormed_nonempty[OF assms(2)] minutesOf_wellFormed[OF assms(1)]
          minutesOf_wellFormed[OF assms(2)]])
qed

text \<open>
  The window 22:00 to 02:00: open at 23:30 and at 01:00, closed at 10:00 and at
  exactly 02:00.
\<close>

theorem isOpen_overnight_witness:
  "wellFormedHHMM ''22:00'' \<and> wellFormedHHMM ''02:00''
   \<and> hhmmMinutes ''02:00'' < hhmmMinutes ''22:00''
   \<and> isOpen (Some ''22:00'') (Some ''02:00'') (23 * 60 + 30)
   \<and> isOpen (Some ''22:00'') (Some ''02:00'') (1 * 60)
   \<and> \<not> isOpen (Some ''22:00'') (Some ''02:00'') (10 * 60)
   \<and> \<not> isOpen (Some ''22:00'') (Some ''02:00'') (2 * 60)"
proof -
  have wf: "wellFormedHHMM ''22:00''" "wellFormedHHMM ''02:00''"
    by (simp_all add: wellFormedHHMM_def isDigit_def)
  have v: "hhmmMinutes ''22:00'' = 1320" "hhmmMinutes ''02:00'' = 120"
    by (simp_all add: hhmmMinutes_def digitVal_def)
  have lt: "hhmmMinutes ''02:00'' < hhmmMinutes ''22:00''"
    by (simp add: v)
  show ?thesis
    using isOpen_overnight[OF wf lt, of "23 * 60 + 30"] isOpen_overnight[OF wf lt, of "1 * 60"]
      isOpen_overnight[OF wf lt, of "10 * 60"] isOpen_overnight[OF wf lt, of "2 * 60"] wf
    by (simp add: v)
qed

text \<open>
  C7. For well-formed \<open>"HH:MM"\<close> bounds with the opening time not later than the closing
  time (a same-day window) and any minute \<open>now\<close>, \<open>isOpen\<close> is true exactly when
  \<open>open \<le> now < close\<close>.
\<close>

theorem isOpen_same_day:
  assumes "wellFormedHHMM ot" "wellFormedHHMM ct"
    and "hhmmMinutes ot \<le> hhmmMinutes ct"
  shows "isOpen (Some ot) (Some ct) now = (hhmmMinutes ot \<le> now \<and> now < hhmmMinutes ct)"
  using assms(3)
  by (auto simp add: isOpen_Num[OF wellFormed_nonempty[OF assms(1)]
        wellFormed_nonempty[OF assms(2)] minutesOf_wellFormed[OF assms(1)]
        minutesOf_wellFormed[OF assms(2)]])

text \<open>
  The window 09:00 to 17:00: closed at 08:59, open at 09:00 and at 16:59, closed at 17:00.
\<close>

theorem isOpen_same_day_witness:
  "wellFormedHHMM ''09:00'' \<and> wellFormedHHMM ''17:00''
   \<and> hhmmMinutes ''09:00'' \<le> hhmmMinutes ''17:00''
   \<and> \<not> isOpen (Some ''09:00'') (Some ''17:00'') (8 * 60 + 59)
   \<and> isOpen (Some ''09:00'') (Some ''17:00'') (9 * 60)
   \<and> isOpen (Some ''09:00'') (Some ''17:00'') (16 * 60 + 59)
   \<and> \<not> isOpen (Some ''09:00'') (Some ''17:00'') (17 * 60)"
proof -
  have wf: "wellFormedHHMM ''09:00''" "wellFormedHHMM ''17:00''"
    by (simp_all add: wellFormedHHMM_def isDigit_def)
  have v: "hhmmMinutes ''09:00'' = 540" "hhmmMinutes ''17:00'' = 1020"
    by (simp_all add: hhmmMinutes_def digitVal_def)
  have le: "hhmmMinutes ''09:00'' \<le> hhmmMinutes ''17:00''"
    by (simp add: v)
  show ?thesis
    using isOpen_same_day[OF wf le, of "8 * 60 + 59"] isOpen_same_day[OF wf le, of "9 * 60"]
      isOpen_same_day[OF wf le, of "16 * 60 + 59"] isOpen_same_day[OF wf le, of "17 * 60"] wf
    by (simp add: v)
qed

text \<open>
  C8, as stated, fails: the string \<open>":"\<close> is not of the form \<open>"HH:MM"\<close>, yet both of its
  parts are empty strings, which \<open>Number\<close> reads as 0, so it stands for 00:00 and with
  the closing time 23:59 the place counts as open at 10:00.
\<close>

theorem isOpen_malformed_counterexample:
  "\<not> wellFormedHHMM '':'' \<and> isOpen (Some '':'') (Some ''23:59'') (10 * 60)"
  by (simp add: wellFormedHHMM_def isOpen_def minutesOf_def Number_def trim_def isWS_def
      nonDecimal_def parseDecimal_def parseUnsigned_def isDigit_def digitsVal_def
      digitVal_def elemOrUndefined_def withExponent_def jge_def)

text \<open>
  C8, amended. \<open>isOpen\<close> is false (and, being a total function on strings, raises
  nothing) when a bound is absent or the empty string, when a bound has no colon, or when
  the hour or minute part of a bound is not numeric for \<open>Number\<close>.
\<close>

theorem isOpen_unknown_closed:
  assumes "openTime = None \<or> closeTime = None
           \<or> openTime = Some [] \<or> closeTime = Some []
           \<or> (\<exists>t. (openTime = Some t \<or> closeTime = Some t) \<and> unreadable t)"
  shows "\<not> isOpen openTime closeTime now"
proof (cases openTime)
  case None
  then show ?thesis by (simp add: isOpen_def)
next
  case (Some ot)
  show ?thesis
  proof (cases closeTime)
    case None
    then show ?thesis by (simp add: isOpen_def Some)
  next
    case ct: (Some ct)
    show ?thesis
    proof (cases "ot = [] \<or> ct = []")
      case True
      then show ?thesis by (auto simp: isOpen_def Some ct)
    next
      case False
      with assms Some ct have "unreadable ot \<or> unreadable ct" by auto
      then have "minutesOf ot = NaN \<or> minutesOf ct = NaN"
        by (auto dest: unreadable_minutesOf)
      then show ?thesis unfolding Some ct by (rule isOpen_NaN)
    qed
  qed
qed

theorem isOpen_unknown_closed_witness:
  "unreadable ''9am'' \<and> unreadable ''0900''
   \<and> \<not> isOpen (Some ''9am'') (Some ''17:00'') (10 * 60)
   \<and> \<not> isOpen (Some ''09:00'') (Some ''0900'') (10 * 60)
   \<and> \<not> isOpen None (Some ''17:00'') (10 * 60)
   \<and> \<not> isOpen (Some ''09:00'') (Some []) (10 * 60)"
proof -
  have u: "unreadable ''9am''" "unreadable ''0900''"
    by (simp_all add: unreadable_def)
  show ?thesis
    using isOpen_unknown_closed[of "Some ''9am''" "Some ''17:00''" "10 * 60"]
      isOpen_unknown_closed[of "Some ''09:00''" "Some ''0900''" "10 * 60"]
      isOpen_unknown_closed[of None "Some ''17:00''" "10 * 60"]
      isOpen_unknown_closed[of "Some ''09:00''" "Some []" "10 * 60"] u
    by auto
qed

section \<open>Properties of the distance ranking\<close>

subsection \<open>The sort\<close>

lemma mset_insertSorted: "mset (insertSorted cmp x ys) = add_mset x (mset ys)"
  by (induction ys) auto

lemma mset_stableSort: "mset (stableSort cmp xs) = mset xs"
  by (induction xs) (auto simp: stableSort_def mset_insertSorted)

lemma set_stableSort: "set (stableSort cmp xs) = set xs"
  using mset_stableSort[of cmp xs] by (metis set_mset_mset)

text \<open>The sort always has a result, and a consistent comparator leaves one result only.\<close>

lemma arraySort_returns: "arraySort cmp xs (stableSort cmp xs)"
  by (simp add: arraySort_def mset_stableSort)

lemma arraySort_consistent:
  "consistentComparator cmp xs \<Longrightarrow> arraySort cmp xs out \<longleftrightarrow> out = stableSort cmp xs"
  by (auto simp: arraySort_def mset_stableSort)

lemma arraySort_inconsistent:
  "\<not> consistentComparator cmp xs \<Longrightarrow> arraySort cmp xs out \<longleftrightarrow> mset out = mset xs"
  by (simp add: arraySort_def)

lemma arraySort_set: "arraySort cmp xs out \<Longrightarrow> set out = set xs"
  unfolding arraySort_def by (metis set_mset_mset)

lemma jsub_asym: "jlt (Num 0) (jsub a b) \<Longrightarrow> \<not> jlt (Num 0) (jsub b a)"
  by (cases a; cases b) (auto simp: jsub_def)

lemma byDistance_asym: "jlt (Num 0) (byDistance x y) \<Longrightarrow> \<not> jlt (Num 0) (byDistance y x)"
  unfolding byDistance_def by (rule jsub_asym)

lemma successively_insertSorted:
  assumes asym: "\<And>x y. jlt (Num 0) (cmp x y) \<Longrightarrow> \<not> jlt (Num 0) (cmp y x)"
    and "successively (\<lambda>x y. \<not> jlt (Num 0) (cmp x y)) ys"
  shows "successively (\<lambda>x y. \<not> jlt (Num 0) (cmp x y)) (insertSorted cmp x ys)"
  using assms(2)
proof (induction ys)
  case Nil
  then show ?case by simp
next
  case (Cons y ys)
  then show ?case
    by (cases ys) (auto simp: successively_Cons dest: asym)
qed

lemma successively_stableSort:
  assumes asym: "\<And>x y. jlt (Num 0) (cmp x y) \<Longrightarrow> \<not> jlt (Num 0) (cmp y x)"
  shows "successively (\<lambda>x y. \<not> jlt (Num 0) (cmp x y)) (stableSort cmp xs)"
proof (induction xs)
  case Nil
  then show ?case by (simp add: stableSort_def)
next
  case (Cons x xs)
  have "stableSort cmp (x # xs) = insertSorted cmp x (stableSort cmp xs)"
    by (simp add: stableSort_def)
  with Cons successively_insertSorted[OF asym] show ?case by simp
qed

lemma stableSort_fixed:
  "successively (\<lambda>x y. \<not> jlt (Num 0) (cmp x y)) xs \<Longrightarrow> stableSort cmp xs = xs"
proof (induction xs)
  case Nil
  then show ?case by (simp add: stableSort_def)
next
  case (Cons x xs)
  then have "stableSort cmp xs = xs" by (cases xs) (auto simp: successively_Cons)
  then have "stableSort cmp (x # xs) = insertSorted cmp x xs"
    by (simp add: stableSort_def)
  with Cons.prems show ?case by (cases xs) (auto simp: successively_Cons)
qed

lemma stableSort_idem:
  assumes asym: "\<And>x y. jlt (Num 0) (cmp x y) \<Longrightarrow> \<not> jlt (Num 0) (cmp y x)"
  shows "stableSort cmp (stableSort cmp xs) = stableSort cmp xs"
  by (rule stableSort_fixed) (rule successively_stableSort[OF asym])

subsection \<open>The comparator on distances\<close>

lemma byDistance_Num:
  "distance a = Some (Num x) \<Longrightarrow> distance b = Some (Num y) \<Longrightarrow> byDistance a b = Num (x - y)"
  by (simp add: byDistance_def jsub_def)

text \<open>On listings whose distances are all finite numbers the comparator is consistent.\<close>

lemma byDistance_consistent:
  assumes "\<forall>r \<in> set xs. \<exists>d. distance r = Some (Num d)"
  shows "consistentComparator byDistance xs"
  unfolding consistentComparator_def
proof (intro ballI)
  fix a b c
  assume "a \<in> set xs" "b \<in> set xs" "c \<in> set xs"
  with assms obtain x y z where
    d: "distance a = Some (Num x)" "distance b = Some (Num y)" "distance c = Some (Num z)"
    by blast
  show "byDistance a b \<noteq> NaN \<and> byDistance a a = Num 0
      \<and> (byDistance a b = Num 0 \<longrightarrow> byDistance b a = Num 0)
      \<and> (byDistance a b = Num 0 \<and> byDistance b c = Num 0 \<longrightarrow> byDistance a c = Num 0)
      \<and> (jlt (byDistance a b) (Num 0) \<and> jlt (byDistance b c) (Num 0)
           \<longrightarrow> jlt (byDistance a c) (Num 0))
      \<and> (jlt (Num 0) (byDistance a b) \<and> jlt (Num 0) (byDistance b c)
           \<longrightarrow> jlt (Num 0) (byDistance a c))"
    by (simp add: byDistance_Num d)
qed

text \<open>One listing whose distance is NaN, and the comparator is not consistent.\<close>

lemma byDistance_NaN_inconsistent:
  assumes "r \<in> set xs" "propNumber (distance r) = NaN"
  shows "\<not> consistentComparator byDistance xs"
proof
  assume "consistentComparator byDistance xs"
  with assms(1) have "byDistance r r \<noteq> NaN"
    unfolding consistentComparator_def by blast
  then show False by (simp add: byDistance_def jsub_def assms(2))
qed

lemma insertSorted_insort_key:
  assumes "\<forall>r \<in> set (x # ys). \<exists>d. distance r = Some (Num d)"
  shows "insertSorted byDistance x ys = insort_key distanceKm x ys"
  using assms
proof (induction ys)
  case Nil
  then show ?case by simp
next
  case (Cons y ys)
  then obtain dx dy where d: "distance x = Some (Num dx)" "distance y = Some (Num dy)"
    by auto
  have "jlt (Num 0) (byDistance x y) = (\<not> distanceKm x \<le> distanceKm y)"
    by (auto simp: byDistance_Num d distanceKm_def)
  with Cons show ?case by simp
qed

lemma stableSort_sort_key:
  assumes "\<forall>r \<in> set xs. \<exists>d. distance r = Some (Num d)"
  shows "stableSort byDistance xs = sort_key distanceKm xs"
  using assms
proof (induction xs)
  case Nil
  then show ?case by (simp add: stableSort_def)
next
  case (Cons x xs)
  then have ih: "stableSort byDistance xs = sort_key distanceKm xs" by simp
  have "stableSort byDistance (x # xs) = insertSorted byDistance x (sort_key distanceKm xs)"
    using ih by (simp add: stableSort_def)
  also have "\<dots> = insort_key distanceKm x (sort_key distanceKm xs)"
    using Cons.prems by (intro insertSorted_insort_key) auto
  finally show ?case by simp
qed

lemma stableSort_ascending:
  assumes num: "\<forall>r \<in> set xs. \<exists>d. distance r = Some (Num d)"
  shows "ascendingByDistance (stableSort byDistance xs)"
proof -
  have "sorted_wrt (\<lambda>a b. distanceKm a \<le> distanceKm b) (sort_key distanceKm xs)"
    using sorted_sort_key[of distanceKm xs] by (simp only: sorted_map)
  then have "sorted_wrt (\<lambda>a b. jle (propNumber (distance a)) (propNumber (distance b)))
      (sort_key distanceKm xs)"
  proof (rule sorted_wrt_mono_rel[rotated])
    fix a b
    assume "a \<in> set (sort_key distanceKm xs)" and "b \<in> set (sort_key distanceKm xs)"
      and le: "distanceKm a \<le> distanceKm b"
    then have "a \<in> set xs" "b \<in> set xs"
      by (simp_all only: set_sort)
    with num obtain da db where "distance a = Some (Num da)" "distance b = Some (Num db)"
      by blast
    then show "jle (propNumber (distance a)) (propNumber (distance b))"
      using le by (auto simp: jle_def distanceKm_def)
  qed
  then show ?thesis by (simp add: stableSort_sort_key[OF num] ascendingByDistance_def)
qed

subsection \<open>The annotation\<close>

lemma withDistance_idem: "withDistance fa c (withDistance fa c r) = withDistance fa c r"
  by (simp add: withDistance_def)

lemma unannotated_withDistance: "unannotated (withDistance fa c r) = unannotated r"
  by (simp add: withDistance_def unannotated_def)

lemma withDistance_hasCoords [simp]: "hasCoords (withDistance fa c r) = hasCoords r"
  by (simp add: hasCoords_def withDistance_def)

text \<open>
  A missing \<open>lat\<close> or \<open>lng\<close> reaches the result as NaN, whatever the arithmetic.
\<close>

lemma haversine_NaN_lat: "haversine fa la1 lo1 NaN lo2 = NaN"
  by (simp add: haversine_def Let_def fsub_def fmul_def fdiv_def fsin_def fadd_def fsqrt_def
      fatan2_def)

lemma haversine_NaN_lng: "haversine fa la1 lo1 la2 NaN = NaN"
  by (simp add: haversine_def Let_def fsub_def fmul_def fdiv_def fsin_def fadd_def fsqrt_def
      fatan2_def)

lemma withDistance_coordless:
  "\<not> hasCoords r \<Longrightarrow> distance (withDistance fa c r) = Some NaN"
  by (cases "lat r"; cases "lng r")
    (simp_all add: hasCoords_def withDistance_def haversine_NaN_lat haversine_NaN_lng)

subsection \<open>What \<open>sortByDistance\<close> returns\<close>

lemma sortByDistance_returns: "\<exists>out. sortByDistance fa coords xs out"
  by (cases coords) (auto simp: sortByDistance_def intro: arraySort_returns)

lemma sortByDistance_identity: "sortByDistance fa None xs out \<longleftrightarrow> out = xs"
  by (simp add: sortByDistance_def)

lemma sortByDistance_members:
  assumes "sortByDistance fa coords xs out"
  shows "mset (map unannotated out) = mset (map unannotated xs)"
proof (cases coords)
  case None
  with assms show ?thesis by (simp add: sortByDistance_def)
next
  case (Some c)
  with assms have "mset out = mset (map (withDistance fa c) xs)"
    by (simp add: sortByDistance_def arraySort_def)
  then have "image_mset unannotated (mset out)
      = image_mset unannotated (mset (map (withDistance fa c) xs))"
    by simp
  then show ?thesis
    by (simp add: multiset.map_comp comp_def unannotated_withDistance)
qed

text \<open>
  Sorting a second time changes nothing where the distances of the first result are all
  finite numbers.
\<close>

lemma sortByDistance_twice:
  assumes "sortByDistance fa (Some c) xs out"
    and num: "\<forall>r \<in> set out. \<exists>d. distance r = Some (Num d)"
    and "sortByDistance fa (Some c) out out2"
  shows "out2 = out"
proof -
  let ?ys = "map (withDistance fa c) xs"
  have s: "arraySort byDistance ?ys out"
    using assms(1) by (simp add: sortByDistance_def)
  then have set: "set out = set ?ys" by (rule arraySort_set)
  with num have "consistentComparator byDistance ?ys"
    by (intro byDistance_consistent) simp
  with s have out: "out = stableSort byDistance ?ys"
    by (simp add: arraySort_consistent)
  have "map (withDistance fa c) out = out"
  proof (rule map_idI)
    fix r assume "r \<in> set out"
    with set show "withDistance fa c r = r" by (auto simp: withDistance_idem)
  qed
  then have "arraySort byDistance out out2"
    using assms(3) by (simp add: sortByDistance_def)
  moreover have "consistentComparator byDistance out"
    using num by (rule byDistance_consistent)
  ultimately have "out2 = stableSort byDistance out"
    by (simp add: arraySort_consistent)
  also have "\<dots> = out"
    by (subst (1 2) out) (rule stableSort_idem[of byDistance, OF byDistance_asym])
  finally show ?thesis .
qed

subsection \<open>In exact arithmetic the source's function is the Haversine formula\<close>

lemma jmul_NaN_right: "jmul a NaN = NaN"
  by (cases a) simp_all

lemma jdiv_NaN_right: "jdiv a NaN = NaN"
  by (cases a) simp_all

lemma jatan2_NaN_right: "jatan2 a NaN = NaN"
  by (cases a) simp_all

lemma exactArith_ops:
  "fadd exactArith x y = jadd x y"
  "fsub exactArith x y = jsub x y"
  "fmul exactArith x y = jmul x y"
  "fdiv exactArith x y = jdiv x y"
  "fsin exactArith x = jsin x"
  "fcos exactArith x = jcos x"
  "fsqrt exactArith x = jsqrt x"
  "fatan2 exactArith x y = jatan2 x y"
  "fp_PI exactArith = Num pi"
  by (auto simp: fadd_def fsub_def fmul_def fdiv_def fsin_def fcos_def fsqrt_def fatan2_def
      exactArith_def jsub_def jadd_NaN_right jmul_NaN_right jdiv_NaN_right jatan2_NaN_right)

lemma sin_half_sq: "(sin (x / 2))\<^sup>2 = (1 - cos x) / 2" for x :: real
  using cos_double_sin[of "x / 2"] by simp

lemma hav_convex:
  fixes A B s :: real
  assumes "0 \<le> A" "A \<le> 1" "0 \<le> B" "B \<le> 1" "0 \<le> s" "s \<le> 1"
  shows "0 \<le> (1 - s) * A + s * B" "(1 - s) * A + s * B \<le> 1"
proof -
  show "0 \<le> (1 - s) * A + s * B" using assms by simp
  have "(1 - s) * A \<le> (1 - s) * 1" using assms by (intro mult_left_mono) auto
  moreover have "s * B \<le> s * 1" using assms by (intro mult_left_mono) auto
  ultimately show "(1 - s) * A + s * B \<le> 1" by simp
qed

lemma hav_range: "0 \<le> hav p q \<and> hav p q \<le> 1"
proof -
  define f1 where "f1 = radians (fst p)"
  define f2 where "f2 = radians (fst q)"
  define s where "s = (sin ((radians (snd q) - radians (snd p)) / 2))\<^sup>2"
  define A where "A = (1 - cos (f2 - f1)) / 2"
  define B where "B = (1 + cos (f2 + f1)) / 2"
  have s: "0 \<le> s" "s \<le> 1"
    unfolding s_def by (simp_all add: abs_square_le_1 abs_sin_le_one)
  have A: "0 \<le> A" "A \<le> 1"
    using cos_le_one[of "f2 - f1"] cos_ge_minus_one[of "f2 - f1"] by (simp_all add: A_def)
  have "0 \<le> 1 + cos (f2 + f1)" "1 + cos (f2 + f1) \<le> 2"
    using cos_le_one[of "f2 + f1"] cos_ge_minus_one[of "f2 + f1"] by linarith+
  then have B: "0 \<le> B" "B \<le> 1"
    by (simp_all add: B_def)
  have "hav p q = (sin ((f2 - f1) / 2))\<^sup>2 + cos f1 * cos f2 * s"
    by (simp add: hav_def f1_def f2_def s_def)
  also have "\<dots> = (1 - s) * A + s * B"
    unfolding A_def B_def sin_half_sq cos_diff cos_add by (simp add: field_simps)
  finally have "hav p q = (1 - s) * A + s * B" .
  then show ?thesis using hav_convex[OF A B s] by simp
qed

lemma atan2_sqrt:
  assumes "0 \<le> h" "h \<le> 1"
  shows "atan2 (sqrt h) (sqrt (1 - h)) = arcsin (sqrt h)"
proof (cases "h = 1")
  case True
  then show ?thesis by (simp add: atan2_def)
next
  case False
  with assms have lt: "h < 1" by simp
  then have pos: "0 < sqrt (1 - h)" by simp
  have "sqrt h < 1" using lt assms by (simp add: real_sqrt_lt_1_iff)
  moreover have "- 1 < sqrt h" using assms by (smt (verit) real_sqrt_ge_zero)
  ultimately have "arcsin (sqrt h) = arctan (sqrt h / sqrt (1 - (sqrt h)\<^sup>2))"
    by (rule arcsin_arctan[rotated])
  then show ?thesis using pos assms by (simp add: atan2_def)
qed

lemma haversine_exact:
  "haversine exactArith (Num la1) (Num lo1) (Num la2) (Num lo2)
   = Num (greatCircleKm (la1, lo1) (la2, lo2))"
proof -
  define h where "h = hav (la1, lo1) (la2, lo2)"
  define dLat where "dLat = jmul (jsub (Num la2) (Num la1)) (jdiv (Num pi) (Num 180))"
  define dLng where "dLng = jmul (jsub (Num lo2) (Num lo1)) (jdiv (Num pi) (Num 180))"
  have r: "0 \<le> h" "h \<le> 1"
    using hav_range[of "(la1, lo1)" "(la2, lo2)"] by (simp_all add: h_def)
  have a: "jadd
            (jmul (jsin (jdiv dLat (Num 2))) (jsin (jdiv dLat (Num 2))))
            (jmul
              (jmul
                (jmul (jcos (jmul (Num la1) (jdiv (Num pi) (Num 180))))
                      (jcos (jmul (Num la2) (jdiv (Num pi) (Num 180)))))
                (jsin (jdiv dLng (Num 2))))
              (jsin (jdiv dLng (Num 2)))) = Num h"
    by (simp add: dLat_def dLng_def jsub_def h_def hav_def radians_def power2_eq_square
        algebra_simps diff_divide_distrib)
  have c: "jatan2 (jsqrt (Num h)) (jsqrt (jsub (Num 1) (Num h))) = Num (arcsin (sqrt h))"
    using r by (simp add: jsub_def atan2_sqrt)
  show ?thesis
    unfolding haversine_def exactArith_ops Let_def dLat_def[symmetric] dLng_def[symmetric] a c
    by (simp add: greatCircleKm_def h_def)
qed

lemma greatCircleKm_range: "0 \<le> greatCircleKm p q \<and> greatCircleKm p q < 25484"
proof -
  have r: "0 \<le> sqrt (hav p q)" "sqrt (hav p q) \<le> 1"
    using hav_range[of p q] by (simp_all add: real_sqrt_le_1_iff)
  have "0 \<le> arcsin (sqrt (hav p q))" using r by (simp add: arcsin_nonneg)
  moreover have "arcsin (sqrt (hav p q)) \<le> pi / 2" using r by (intro arcsin_ubound) linarith+
  ultimately show ?thesis using pi_less_4 unfolding greatCircleKm_def by linarith
qed

lemma toFixedReal_roundHalfUp:
  "0 \<le> x \<Longrightarrow> x < 10 ^ 21 \<Longrightarrow> toFixedReal d x = roundHalfUp d x"
  by (simp add: toFixedReal_def roundHalfUp_def)

text \<open>
  So in exact arithmetic a listing with coordinates is annotated with its great-circle
  distance, rounded to two decimals.
\<close>

lemma withDistance_ranked:
  assumes "hasCoords r"
  shows "withDistance exactArith c r = ranked c r"
proof -
  from assms obtain la lo where ll: "lat r = Some la" "lng r = Some lo"
    by (auto simp: hasCoords_def)
  have "toFixedReal 2 (greatCircleKm c (la, lo)) = roundHalfUp 2 (greatCircleKm c (la, lo))"
    using greatCircleKm_range[of c "(la, lo)"] by (intro toFixedReal_roundHalfUp) auto
  then show ?thesis
    using haversine_exact[of "fst c" "snd c" la lo]
    by (simp add: withDistance_def ranked_def ll)
qed

lemma ranked_Num: "hasCoords r \<Longrightarrow> \<exists>d. distance (ranked c r) = Some (Num d)"
  by (auto simp: hasCoords_def ranked_def)

subsection \<open>The distances of the scenario\<close>

lemma sin_ge_half:
  fixes z :: real
  assumes "0 \<le> z" "z \<le> 1"
  shows "z / 2 \<le> sin z"
proof -
  have "\<bar>sin z - (\<Sum>m<2. sin_coeff m * z ^ m)\<bar> \<le> inverse (fact 2) * \<bar>z\<bar> ^ 2"
    by (rule Maclaurin_sin_bound)
  moreover have "(\<Sum>m<2. sin_coeff m * z ^ m) = z"
    by (simp add: sin_coeff_def numeral_2_eq_2)
  ultimately have "\<bar>sin z - z\<bar> \<le> z\<^sup>2 / 2" by simp
  moreover have "z\<^sup>2 \<le> z" using assms by (simp add: power2_eq_square mult_left_le)
  ultimately show ?thesis by linarith
qed

lemma roundHalfUp_near: "\<bar>roundHalfUp 2 x - x\<bar> \<le> 1 / 200"
proof -
  define n where "n = \<lfloor>x * 100 + 1 / 2\<rfloor>"
  have "of_int n \<le> x * 100 + 1 / 2" "x * 100 + 1 / 2 < of_int n + 1"
    unfolding n_def by linarith+
  moreover have "roundHalfUp 2 x = of_int n / 100"
    by (simp add: roundHalfUp_def n_def)
  ultimately show ?thesis by linarith
qed

lemma hav_A: "hav visitor (31 / 100, 3259 / 100) \<le> 2 * (pi / 36000)\<^sup>2"
proof -
  define t :: real where "t = pi / 36000"
  have t: "0 \<le> t" by (simp add: t_def)
  have h: "hav visitor (31 / 100, 3259 / 100)
      = (sin t)\<^sup>2 + cos (radians (30 / 100)) * cos (radians (31 / 100)) * (sin t)\<^sup>2"
    by (simp add: hav_def visitor_def radians_def t_def)
  have s: "(sin t)\<^sup>2 \<le> t\<^sup>2"
    using abs_sin_x_le_abs_x[of t] by (simp add: abs_le_square_iff[symmetric])
  have "\<bar>cos (radians (30 / 100))\<bar> * \<bar>cos (radians (31 / 100))\<bar> \<le> 1"
    by (intro mult_le_one) simp_all
  then have "cos (radians (30 / 100)) * cos (radians (31 / 100)) \<le> 1"
    unfolding abs_mult[symmetric] by linarith
  then have "cos (radians (30 / 100)) * cos (radians (31 / 100)) * (sin t)\<^sup>2 \<le> 1 * (sin t)\<^sup>2"
    by (intro mult_right_mono) auto
  with s show ?thesis unfolding h t_def[symmetric] by linarith
qed

lemma km_A: "greatCircleKm visitor (31 / 100, 3259 / 100) < 5"
proof -
  define x where "x = sqrt (hav visitor (31 / 100, 3259 / 100))"
  define y :: real where "y = 2 * (sqrt 2 * (pi / 36000))"
  have x0: "0 \<le> x" "x \<le> 1"
    using hav_range[of visitor "(31 / 100, 3259 / 100)"] by (simp_all add: x_def)
  have "x \<le> sqrt (2 * (pi / 36000)\<^sup>2)"
    unfolding x_def using hav_A by (rule real_sqrt_le_mono)
  also have "\<dots> = sqrt 2 * (pi / 36000)"
    by (simp add: real_sqrt_mult)
  finally have xle: "x \<le> y / 2" by (simp add: y_def mult_ac)
  have s2: "sqrt 2 < 3 / 2"
    by (rule real_less_lsqrt) (simp_all add: power2_eq_square)
  have "sqrt 2 * pi < 3 / 2 * 4"
    using s2 pi_less_4 pi_gt_zero by (intro mult_strict_mono) simp_all
  then have y: "0 \<le> y" "y < 1 / 3000"
    by (simp_all add: y_def mult_ac)
  have "y / 2 \<le> sin y" using y by (intro sin_ge_half) auto
  with xle have "x \<le> sin y" by simp
  then have "arcsin x \<le> y"
    using x0 y pi_ge_two by (subst arcsin_le_iff) auto
  then show ?thesis using y by (simp add: greatCircleKm_def x_def[symmetric])
qed

lemma km_B: "7 < greatCircleKm visitor (40 / 100, 3270 / 100)"
proof -
  define t :: real where "t = pi / 3600"
  define x where "x = sqrt (hav visitor (40 / 100, 3270 / 100))"
  have t: "0 \<le> t" "t \<le> pi / 2" "2 / 3600 \<le> t"
    using pi_ge_two by (simp_all add: t_def)
  have x1: "0 \<le> x" "x \<le> 1"
    using hav_range[of visitor "(40 / 100, 3270 / 100)"] by (simp_all add: x_def)
  have h: "hav visitor (40 / 100, 3270 / 100)
      = (sin t)\<^sup>2 + cos (pi / 600) * cos (pi / 450) * (sin (pi / 3000))\<^sup>2"
    by (simp add: hav_def visitor_def radians_def t_def)
  have "0 \<le> cos (pi / 600)" "0 \<le> cos (pi / 450)"
    by (intro cos_ge_zero; simp)+
  then have "0 \<le> cos (pi / 600) * cos (pi / 450) * (sin (pi / 3000))\<^sup>2"
    by simp
  then have "(sin t)\<^sup>2 \<le> hav visitor (40 / 100, 3270 / 100)"
    unfolding h by linarith
  then have "sqrt ((sin t)\<^sup>2) \<le> x"
    unfolding x_def by (rule real_sqrt_le_mono)
  moreover have "0 \<le> sin t" using t pi_gt_zero by (intro sin_ge_zero) linarith+
  ultimately have "sin t \<le> x" by simp
  then have "t \<le> arcsin x"
    using x1 t by (subst le_arcsin_iff) simp_all
  moreover have "greatCircleKm visitor (40 / 100, 3270 / 100) = 12742 * arcsin x"
    by (simp add: greatCircleKm_def x_def)
  ultimately show ?thesis using t(3) by linarith
qed

lemma withDistance_listingC: "withDistance fa c listingC = listingC\<lparr>distance := Some NaN\<rparr>"
  by (simp add: withDistance_def listingC_def haversine_NaN_lat)

lemma scenario_hasCoords: "hasCoords listingA" "hasCoords listingB" "\<not> hasCoords listingC"
  by (simp_all add: hasCoords_def listingA_def listingB_def listingC_def)

lemma scenario_distances:
  "distanceKm (ranked visitor listingA) < distanceKm (ranked visitor listingB)"
proof -
  have "distanceKm (ranked visitor listingA)
      = roundHalfUp 2 (greatCircleKm visitor (31 / 100, 3259 / 100))"
    by (simp add: distanceKm_def ranked_def listingA_def)
  moreover have "distanceKm (ranked visitor listingB)
      = roundHalfUp 2 (greatCircleKm visitor (40 / 100, 3270 / 100))"
    by (simp add: distanceKm_def ranked_def listingB_def)
  ultimately show ?thesis
    using km_A km_B roundHalfUp_near[of "greatCircleKm visitor (31 / 100, 3259 / 100)"]
      roundHalfUp_near[of "greatCircleKm visitor (40 / 100, 3270 / 100)"]
    by linarith
qed

text \<open>B and A, given in this order, come back as A, B.\<close>

lemma scenario_BA:
  "sortByDistance exactArith (Some visitor) [listingB, listingA] out
   \<longleftrightarrow> out = [ranked visitor listingA, ranked visitor listingB]"
proof -
  let ?ys = "[ranked visitor listingB, ranked visitor listingA]"
  have m: "map (withDistance exactArith visitor) [listingB, listingA] = ?ys"
    by (simp add: withDistance_ranked scenario_hasCoords)
  have n: "\<forall>r \<in> set ?ys. \<exists>d. distance r = Some (Num d)"
    using ranked_Num[OF scenario_hasCoords(1), of visitor]
      ranked_Num[OF scenario_hasCoords(2), of visitor] by simp
  have "stableSort byDistance ?ys = sort_key distanceKm ?ys"
    using n by (rule stableSort_sort_key)
  also have "\<dots> = [ranked visitor listingA, ranked visitor listingB]"
    using scenario_distances by simp
  finally have "stableSort byDistance ?ys = [ranked visitor listingA, ranked visitor listingB]" .
  then show ?thesis
    unfolding sortByDistance_def option.case m
    by (simp only: arraySort_consistent[OF byDistance_consistent[OF n]])
qed

text \<open>
  Where a listing without coordinates is in the list, every rearrangement of the annotated
  list is a result that the language allows.
\<close>

lemma sortByDistance_coordless_any:
  assumes "r \<in> set xs" "\<not> hasCoords r"
  shows "sortByDistance fa (Some c) xs out \<longleftrightarrow> mset out = mset (map (withDistance fa c) xs)"
proof -
  have "withDistance fa c r \<in> set (map (withDistance fa c) xs)"
    using assms(1) by simp
  moreover have "propNumber (distance (withDistance fa c r)) = NaN"
    using assms(2) by (simp add: withDistance_coordless)
  ultimately have "\<not> consistentComparator byDistance (map (withDistance fa c) xs)"
    by (rule byDistance_NaN_inconsistent)
  then show ?thesis
    by (simp add: sortByDistance_def arraySort_inconsistent)
qed

text \<open>
  In exact arithmetic a list whose listings all have coordinates has one result: the
  listings with their rounded great-circle distances, in ascending order.
\<close>

lemma sortByDistance_ranked_exact:
  assumes "\<forall>r \<in> set xs. hasCoords r" and "sortByDistance exactArith (Some c) xs out"
  shows "out = stableSort byDistance (map (ranked c) xs) \<and> ascendingByDistance out"
proof -
  have eq: "map (withDistance exactArith c) xs = map (ranked c) xs"
    using assms(1) by (simp add: withDistance_ranked)
  have num: "\<forall>r \<in> set (map (ranked c) xs). \<exists>d. distance r = Some (Num d)"
    using assms(1) by (auto simp: ranked_Num)
  have "out = stableSort byDistance (map (ranked c) xs)"
    using assms(2) arraySort_consistent[OF byDistance_consistent[OF num]]
    by (simp add: sortByDistance_def eq)
  then show ?thesis using stableSort_ascending[OF num] by simp
qed

subsection \<open>Claims about \<open>sortByDistance\<close>\<close>

text \<open>
  C1, as stated, fails. Take the list C, A of the scenario, C without coordinates. C is
  annotated: it carries a \<open>distance\<close> property, with the value NaN. And the comparator
  answers NaN for C and A, so the order is the engine's: the list may come back as it is,
  with C before A, a listing that bears a distance.
\<close>

theorem sortByDistance_coordless_counterexample:
  "\<not> hasCoords listingC \<and> hasCoords listingA
   \<and> withDistance exactArith visitor listingC = listingC\<lparr>distance := Some NaN\<rparr>
   \<and> byDistance (withDistance exactArith visitor listingA)
        (withDistance exactArith visitor listingC) = NaN
   \<and> sortByDistance exactArith (Some visitor) [listingC, listingA]
        [listingC\<lparr>distance := Some NaN\<rparr>, withDistance exactArith visitor listingA]"
proof -
  have "sortByDistance exactArith (Some visitor) [listingC, listingA]
        [listingC\<lparr>distance := Some NaN\<rparr>, withDistance exactArith visitor listingA]"
    using sortByDistance_coordless_any[of listingC "[listingC, listingA]" exactArith visitor]
      scenario_hasCoords(3)
    by (simp add: withDistance_listingC)
  moreover have "byDistance (withDistance exactArith visitor listingA)
        (withDistance exactArith visitor listingC) = NaN"
    by (simp add: byDistance_def jsub_def withDistance_listingC jadd_NaN_right)
  ultimately show ?thesis
    using scenario_hasCoords by (simp add: withDistance_listingC)
qed

text \<open>
  C1, amended. With an active position every result of \<open>sortByDistance\<close> is a
  rearrangement of the input listings, each with a \<open>distance\<close> property; for a listing
  without \<open>lat\<close> or \<open>lng\<close> its value is NaN. When the distances are all finite numbers
  the result is the stable sort of the annotated list and it is in ascending order of
  distance. Nothing more holds of the order when a listing lacks coordinates: where such
  listings stand in the result is left to the engine.
\<close>

theorem sortByDistance_coordless:
  assumes "sortByDistance fa (Some c) xs out"
  shows "mset out = mset (map (withDistance fa c) xs)
         \<and> (\<forall>r \<in> set out. distance r \<noteq> None \<and> (\<not> hasCoords r \<longrightarrow> distance r = Some NaN))
         \<and> ((\<forall>r \<in> set out. \<exists>d. distance r = Some (Num d)) \<longrightarrow>
               out = stableSort byDistance (map (withDistance fa c) xs)
               \<and> ascendingByDistance out)"
proof -
  let ?ys = "map (withDistance fa c) xs"
  have s: "arraySort byDistance ?ys out"
    using assms by (simp add: sortByDistance_def)
  then have m: "mset out = mset ?ys" by (simp add: arraySort_def)
  have set: "set out = set ?ys" using s by (rule arraySort_set)
  have a: "\<forall>r \<in> set out. distance r \<noteq> None \<and> (\<not> hasCoords r \<longrightarrow> distance r = Some NaN)"
  proof
    fix r assume "r \<in> set out"
    with set obtain x where x: "x \<in> set xs" "r = withDistance fa c x" by auto
    have "distance r \<noteq> None" by (simp add: x withDistance_def)
    moreover have "\<not> hasCoords r \<longrightarrow> distance r = Some NaN"
      by (simp add: x withDistance_coordless)
    ultimately show "distance r \<noteq> None \<and> (\<not> hasCoords r \<longrightarrow> distance r = Some NaN)" ..
  qed
  have o: "out = stableSort byDistance ?ys \<and> ascendingByDistance out"
    if num: "\<forall>r \<in> set out. \<exists>d. distance r = Some (Num d)"
  proof -
    from num set have n: "\<forall>r \<in> set ?ys. \<exists>d. distance r = Some (Num d)" by simp
    then have "out = stableSort byDistance ?ys"
      using s arraySort_consistent[OF byDistance_consistent[OF n]] by simp
    then show ?thesis using stableSort_ascending[OF n] by simp
  qed
  from m a o show ?thesis by blast
qed

text \<open>
  The scenario, in exact arithmetic. The list A, B, C may come back in this order, A and B
  with their rounded great-circle distances, A's less than B's, and C with the distance
  NaN. The list B, A comes back as A, B, in ascending order.
\<close>

theorem sortByDistance_coordless_witness:
  "sortByDistance exactArith (Some visitor) [listingA, listingB, listingC]
     [ranked visitor listingA, ranked visitor listingB, listingC\<lparr>distance := Some NaN\<rparr>]
   \<and> distanceKm (ranked visitor listingA) < distanceKm (ranked visitor listingB)
   \<and> \<not> hasCoords (listingC\<lparr>distance := Some NaN\<rparr>)
   \<and> mset [ranked visitor listingA, ranked visitor listingB, listingC\<lparr>distance := Some NaN\<rparr>]
       = mset (map (withDistance exactArith visitor) [listingA, listingB, listingC])
   \<and> sortByDistance exactArith (Some visitor) [listingB, listingA]
       [ranked visitor listingA, ranked visitor listingB]
   \<and> [ranked visitor listingA, ranked visitor listingB]
       = stableSort byDistance (map (withDistance exactArith visitor) [listingB, listingA])
   \<and> ascendingByDistance [ranked visitor listingA, ranked visitor listingB]"
proof -
  let ?A = "ranked visitor listingA" and ?B = "ranked visitor listingB"
  let ?C = "listingC\<lparr>distance := Some NaN\<rparr>"
  have h1: "sortByDistance exactArith (Some visitor) [listingA, listingB, listingC] [?A, ?B, ?C]"
    using sortByDistance_coordless_any[of listingC "[listingA, listingB, listingC]"
        exactArith visitor] scenario_hasCoords
    by (simp add: withDistance_ranked withDistance_listingC)
  have h2: "sortByDistance exactArith (Some visitor) [listingB, listingA] [?A, ?B]"
    by (simp add: scenario_BA)
  have n: "\<forall>r \<in> set [?A, ?B]. \<exists>d. distance r = Some (Num d)"
    using ranked_Num[OF scenario_hasCoords(1), of visitor]
      ranked_Num[OF scenario_hasCoords(2), of visitor] by simp
  have c: "\<not> hasCoords ?C"
    by (simp add: hasCoords_def listingC_def)
  from sortByDistance_coordless[OF h1]
  have m: "mset [?A, ?B, ?C] = mset (map (withDistance exactArith visitor)
      [listingA, listingB, listingC])"
    by blast
  from sortByDistance_coordless[OF h2] n
  have s: "[?A, ?B] = stableSort byDistance (map (withDistance exactArith visitor)
      [listingB, listingA])" "ascendingByDistance [?A, ?B]"
    by blast+
  from h1 h2 c m s scenario_distances show ?thesis by blast
qed

section \<open>Properties of the filter pipeline\<close>

lemma toLowerCase_Nil_iff: "toLowerCase q = [] \<longleftrightarrow> q = []"
  by (simp add: toLowerCase_def)

text \<open>
  On a listing whose category tokens are in lower case the callback is the conjunction of
  the three predicates.
\<close>

lemma keeps_predicates:
  assumes "lowerCaseCategories r"
  shows "keeps crit r
    = (districtPredicate crit r \<and> categoryPredicate crit r \<and> textPredicate crit r)"
proof -
  have "list_ex (\<lambda>c. includes_str c (toLowerCase (searchQuery crit))) (orEmpty (categories r))
      = list_ex (\<lambda>c. matchesIgnoringCase c (searchQuery crit)) (orEmpty (categories r))"
    using assms
    by (auto simp: lowerCaseCategories_def list_ex_iff list_all_iff matchesIgnoringCase_def)
  then show ?thesis
    by (auto simp: keeps_def districtPredicate_def categoryPredicate_def textPredicate_def
        matchesIgnoringCase_def toLowerCase_Nil_iff Let_def)
qed

lemma filtered_lowerCase:
  assumes "\<forall>r \<in> set rs. lowerCaseCategories r"
  shows "filtered crit rs
           = filter (\<lambda>r. districtPredicate crit r \<and> categoryPredicate crit r
                          \<and> textPredicate crit r) rs"
  unfolding filtered_def using assms by (intro filter_cong) (auto simp: keeps_predicates)

text \<open>The district and the category predicate are those of the code on every listing.\<close>

lemma keeps_district_category:
  "keeps crit r \<Longrightarrow> districtPredicate crit r \<and> categoryPredicate crit r"
  by (simp add: keeps_def districtPredicate_def categoryPredicate_def Let_def)

text \<open>With the three sentinel values the output is the input.\<close>

lemma keeps_noConstraint: "keeps noConstraint r"
  by (simp add: keeps_def noConstraint_def toLowerCase_def)

lemma filtered_noConstraint: "filtered noConstraint rs = rs"
  by (simp add: filtered_def keeps_noConstraint)

text \<open>
  The list shown is the filtered list, sorted by distance afterwards when GPS is active;
  the sort removes and adds no listing.
\<close>

lemma displayed_members:
  assumes "displayed gpsActive fa coords crit rs out"
  shows "mset (map unannotated out) = mset (map unannotated (filtered crit rs))"
proof (cases gpsActive)
  case True
  with assms have "sortByDistance fa coords (filtered crit rs) out"
    by (simp add: displayed_def)
  then show ?thesis by (rule sortByDistance_members)
next
  case False
  with assms show ?thesis by (simp add: displayed_def)
qed

text \<open>
  One listing with lower-case categories, kept for the district Kampala, the category
  \<open>local\<close> and the query \<open>MATO\<close>.
\<close>

lemma filtered_mira:
  "lowerCaseCategories mira \<and> filtered matookeQuery [mira] = [mira]"
  by (simp add: lowerCaseCategories_def filtered_def keeps_def matookeQuery_def mira_def
      toLowerCase_def toLowerChar_def)

text \<open>
  C4. The text predicate of the claim matches the query against each category token
  without regard to case. The code lower-cases the query, the name, the city and the
  address, but compares each category token as it is stored. The listing \<open>grill\<close> has
  the category \<open>BBQ\<close>: for the query \<open>bbq\<close> it passes the three predicates of the
  claim, and the filter drops it.
\<close>

theorem filtered_drops_upper_case_category:
  "districtPredicate bbqQuery grill \<and> categoryPredicate bbqQuery grill
   \<and> matchesIgnoringCase ''BBQ'' (searchQuery bbqQuery)
   \<and> textPredicate bbqQuery grill \<and> filtered bbqQuery [grill] = []"
  by (simp add: districtPredicate_def categoryPredicate_def textPredicate_def bbqQuery_def
      grill_def filtered_def keeps_def matchesIgnoringCase_def toLowerCase_def toLowerChar_def)

section \<open>Properties of the editable-pin map\<close>

lemma near_div:
  fixes m :: real
  assumes "0 < m" "\<bar>a - x * m\<bar> \<le> 1 / 2"
  shows "\<bar>a / m - x\<bar> \<le> 1 / (2 * m)"
proof -
  have "a / m - x = (a - x * m) / m" using assms(1) by (simp add: field_simps)
  then have "\<bar>a / m - x\<bar> = \<bar>a - x * m\<bar> / m" using assms(1) by simp
  also have "\<dots> \<le> (1 / 2) / m" using assms by (intro divide_right_mono) simp_all
  finally show ?thesis by simp
qed

lemma toFixedReal_six:
  assumes "\<bar>x\<bar> < 10 ^ 21"
  shows "roundedTo6 x (toFixedReal 6 x)"
proof (cases "x < 0")
  case True
  define n where "n = \<lfloor>(- x) * 10 ^ 6 + 1 / 2\<rfloor>"
  have c: "toFixedReal 6 x = of_int (- n) / 10 ^ 6"
    using assms True by (simp add: toFixedReal_def n_def)
  have "of_int n \<le> (- x) * 10 ^ 6 + 1 / 2" "(- x) * 10 ^ 6 + 1 / 2 < of_int n + 1"
    unfolding n_def by linarith+
  then have "\<bar>of_int (- n) - x * 10 ^ 6\<bar> \<le> 1 / 2"
    unfolding abs_le_iff of_int_minus by linarith
  then have "\<bar>of_int (- n) / 10 ^ 6 - x\<bar> \<le> 1 / (2 * 10 ^ 6)"
    by (intro near_div) simp_all
  then show ?thesis unfolding c roundedTo6_def sixDecimals_def by simp
next
  case False
  define n where "n = \<lfloor>x * 10 ^ 6 + 1 / 2\<rfloor>"
  have c: "toFixedReal 6 x = of_int n / 10 ^ 6"
    using assms False by (simp add: toFixedReal_def n_def)
  have "of_int n \<le> x * 10 ^ 6 + 1 / 2" "x * 10 ^ 6 + 1 / 2 < of_int n + 1"
    unfolding n_def by linarith+
  then have "\<bar>of_int n - x * 10 ^ 6\<bar> \<le> 1 / 2"
    unfolding abs_le_iff of_int_minus by linarith
  then have "\<bar>of_int n / 10 ^ 6 - x\<bar> \<le> 1 / (2 * 10 ^ 6)"
    by (intro near_div) simp_all
  then show ?thesis unfolding c roundedTo6_def sixDecimals_def by simp
qed

lemma toFixedReal_fixed:
  assumes "sixDecimals c"
  shows "toFixedReal 6 c = c"
proof -
  define k where "k = \<lfloor>c * 10 ^ 6\<rfloor>"
  have k: "c * 10 ^ 6 = of_int k" using assms unfolding sixDecimals_def k_def by (rule sym)
  have c: "c = of_int k / 10 ^ 6" using k by (simp add: field_simps)
  have "\<lfloor>c * 10 ^ 6 + 1 / 2\<rfloor> = k" unfolding k by linarith
  moreover have "\<lfloor>- c * 10 ^ 6 + 1 / 2\<rfloor> = - k"
  proof -
    have "- c * 10 ^ 6 = of_int (- k)" using k by simp
    then show ?thesis by (simp only:) linarith
  qed
  ultimately show ?thesis
    using c by (simp add: toFixedReal_def)
qed

text \<open>The pin of the examples is the component as mounted with its default props.\<close>

lemma mountOwnerMap_kampala: "mountOwnerMap showsAll (latLngOf kampala) True = Inr kampalaPin"
  by (simp add: mountOwnerMap_def kampalaPin_def showsAll_def invalidLatLng_def latLngOf_def)

text \<open>A mount with a NaN coordinate throws, as each later change of the props to one does.\<close>

lemma mountOwnerMap_NaN:
  "invalidLatLng initial \<Longrightarrow> mountOwnerMap viewOk initial handler = Inl InvalidLatLng"
  by (simp add: mountOwnerMap_def)

lemma updatePin_pinCoords:
  "pinCoords (updatePin (Num x, Num y) st) = (Num (toFixedReal 6 x), Num (toFixedReal 6 y))"
  by (simp add: updatePin_def Let_def)

lemma updatePin_emitted:
  "emitted (updatePin latlng st)
   = (if hasOnPinChange st then emitted st @ [pinCoords (updatePin latlng st)] else emitted st)"
  by (simp add: updatePin_def Let_def)

text \<open>
  C3, as stated, fails: the effect compares the new coordinates with the marker's position
  by \<open>!==\<close>, without a tolerance. New coordinates that differ from the marker's by
  \<open>1e-7\<close> degrees in latitude, which is within the tolerance, are given to the marker,
  a view centred on them is asked of the map, and the pin state is seeded with them.
\<close>

theorem syncProps_epsilon_counterexample:
  "withinEpsilon nudged kampala
   \<and> marker kampalaPin = latLngOf kampala \<and> pinCoords kampalaPin = latLngOf kampala
   \<and> latLngOf nudged \<noteq> latLngOf kampala
   \<and> syncProps showsAll (latLngOf nudged) kampalaPin
       = (Inr (),
          kampalaPin\<lparr>marker := latLngOf nudged,
                      views := [(latLngOf kampala, 13), (latLngOf nudged, 13)],
                      pinCoords := latLngOf nudged\<rparr>)"
  by (simp add: withinEpsilon_def epsilon_def nudged_def kampala_def kampalaPin_def
      latLngOf_def syncProps_def strictNotEqual_def invalidLatLng_def showsAll_def)

text \<open>
  C3, amended. The effect does nothing when the map is not mounted, and nothing when the
  new coordinates are numbers identical to the marker's position. When a new coordinate is
  NaN, an error is thrown and nothing has changed. In every other case the marker takes
  the new coordinates and the map is asked for a view centred on them at its current zoom;
  when the map shows it, the pin state takes the new coordinates, and when it fails, the
  error is thrown with the marker moved and the pin state as it was. In no case is
  \<open>onPinChange\<close> called.
\<close>

theorem syncProps_exact:
  "(\<not> mounted st \<longrightarrow> syncProps viewOk p st = (Inr (), st))
   \<and> (mounted st \<and> \<not> invalidLatLng p \<and> marker st = p \<longrightarrow> syncProps viewOk p st = (Inr (), st))
   \<and> (mounted st \<and> invalidLatLng p \<longrightarrow> syncProps viewOk p st = (Inl InvalidLatLng, st))
   \<and> (mounted st \<and> \<not> invalidLatLng p \<and> marker st \<noteq> p \<and> viewOk p (zoom st) \<longrightarrow>
        syncProps viewOk p st
          = (Inr (), st\<lparr>marker := p, views := views st @ [(p, zoom st)], pinCoords := p\<rparr>))
   \<and> (mounted st \<and> \<not> invalidLatLng p \<and> marker st \<noteq> p \<and> \<not> viewOk p (zoom st) \<longrightarrow>
        syncProps viewOk p st = (Inl ViewFailed, st\<lparr>marker := p\<rparr>))
   \<and> emitted (snd (syncProps viewOk p st)) = emitted st"
  by (cases p; cases "marker st")
    (auto simp: syncProps_def Let_def strictNotEqual_def invalidLatLng_def)

text \<open>
  The spec's scenario: a pin at (0.3187, 32.5840), a geocode result (0.3103, 32.5816)
  arrives and the pin moves there; the same coordinates once more change nothing, and
  \<open>onPinChange\<close> has not been called. A geocode result whose latitude does not read as a
  number makes the effect throw.
\<close>

theorem syncProps_exact_witness:
  "mounted kampalaPin \<and> \<not> invalidLatLng (latLngOf geocoded)
   \<and> marker kampalaPin \<noteq> latLngOf geocoded
   \<and> showsAll (latLngOf geocoded) (zoom kampalaPin)
   \<and> syncProps showsAll (latLngOf geocoded) kampalaPin
       = (Inr (),
          kampalaPin\<lparr>marker := latLngOf geocoded,
                      views := views kampalaPin @ [(latLngOf geocoded, zoom kampalaPin)],
                      pinCoords := latLngOf geocoded\<rparr>)
   \<and> syncProps showsAll (latLngOf geocoded)
         (snd (syncProps showsAll (latLngOf geocoded) kampalaPin))
       = (Inr (), snd (syncProps showsAll (latLngOf geocoded) kampalaPin))
   \<and> emitted (snd (syncProps showsAll (latLngOf geocoded) kampalaPin)) = []
   \<and> invalidLatLng (NaN, Num 32)
   \<and> syncProps showsAll (NaN, Num 32) kampalaPin = (Inl InvalidLatLng, kampalaPin)"
proof -
  let ?g = "latLngOf geocoded"
  have a: "mounted kampalaPin" "\<not> invalidLatLng ?g" "marker kampalaPin \<noteq> ?g"
    "emitted kampalaPin = []" "showsAll ?g (zoom kampalaPin)" "invalidLatLng (NaN, Num 32)"
    by (simp_all add: kampalaPin_def kampala_def geocoded_def latLngOf_def invalidLatLng_def
        showsAll_def)
  from syncProps_exact[of kampalaPin showsAll ?g] a
  have b: "syncProps showsAll ?g kampalaPin
      = (Inr (), kampalaPin\<lparr>marker := ?g, views := views kampalaPin @ [(?g, zoom kampalaPin)],
           pinCoords := ?g\<rparr>)"
    and e: "emitted (snd (syncProps showsAll ?g kampalaPin)) = []"
    by simp_all
  have c: "mounted (snd (syncProps showsAll ?g kampalaPin))"
    "marker (snd (syncProps showsAll ?g kampalaPin)) = ?g"
    by (simp_all add: b a)
  from syncProps_exact[of "snd (syncProps showsAll ?g kampalaPin)" showsAll ?g] c a(2)
  have d: "syncProps showsAll ?g (snd (syncProps showsAll ?g kampalaPin))
      = (Inr (), snd (syncProps showsAll ?g kampalaPin))"
    by blast
  from syncProps_exact[of kampalaPin showsAll "(NaN, Num 32)"] a
  have n: "syncProps showsAll (NaN, Num 32) kampalaPin = (Inl InvalidLatLng, kampalaPin)"
    by blast
  from a b d e n show ?thesis by blast
qed

text \<open>
  C10. After a drag-end or a click on the map at a position whose coordinates are below
  \<open>10^21\<close> in magnitude, the pin state holds the coordinates of the event rounded to six
  decimals, printing it with \<open>toFixed(6)\<close> shows these same values, and that pin state
  is what \<open>onPinChange\<close> receives, when the parent gave a handler.
\<close>

theorem updatePin_six_decimals:
  assumes "latlng = (Num x, Num y)" and "\<bar>x\<bar> < 10 ^ 21" "\<bar>y\<bar> < 10 ^ 21"
    and "st' = dragend latlng st \<or> st' = click latlng st"
  shows "\<exists>cx cy. pinCoords st' = (Num cx, Num cy)
           \<and> roundedTo6 x cx \<and> roundedTo6 y cy
           \<and> toFixedReal 6 cx = cx \<and> toFixedReal 6 cy = cy
           \<and> emitted st'
               = (if hasOnPinChange st then emitted st @ [pinCoords st'] else emitted st)"
proof -
  from assms(4) have s: "st' = updatePin latlng (st\<lparr>marker := latlng\<rparr>)"
    by (auto simp: dragend_def click_def)
  have r: "roundedTo6 x (toFixedReal 6 x)" "roundedTo6 y (toFixedReal 6 y)"
    by (rule toFixedReal_six[OF assms(2)], rule toFixedReal_six[OF assms(3)])
  then have "sixDecimals (toFixedReal 6 x)" "sixDecimals (toFixedReal 6 y)"
    by (simp_all add: roundedTo6_def)
  then have f: "toFixedReal 6 (toFixedReal 6 x) = toFixedReal 6 x"
    "toFixedReal 6 (toFixedReal 6 y) = toFixedReal 6 y"
    by (simp_all only: toFixedReal_fixed)
  have p: "pinCoords st' = (Num (toFixedReal 6 x), Num (toFixedReal 6 y))"
    unfolding s assms(1) by (rule updatePin_pinCoords)
  have e: "emitted st'
      = (if hasOnPinChange st then emitted st @ [pinCoords st'] else emitted st)"
    unfolding s updatePin_emitted by simp
  from p r f e show ?thesis by blast
qed

text \<open>
  A pin dropped at (0.31870049, -32.5840005): the state and the handler get
  (0.318700, -32.584001).
\<close>

theorem updatePin_six_decimals_witness:
  "\<bar>fst dropped\<bar> < 10 ^ 21 \<and> \<bar>snd dropped\<bar> < 10 ^ 21
   \<and> pinCoords (dragend (latLngOf dropped) kampalaPin)
       = (Num (318700 / 10 ^ 6), Num (- (32584001 / 10 ^ 6)))
   \<and> roundedTo6 (fst dropped) (318700 / 10 ^ 6)
   \<and> roundedTo6 (snd dropped) (- (32584001 / 10 ^ 6))
   \<and> emitted (dragend (latLngOf dropped) kampalaPin)
       = [(Num (318700 / 10 ^ 6), Num (- (32584001 / 10 ^ 6)))]
   \<and> pinCoords (click (latLngOf dropped) kampalaPin)
       = (Num (318700 / 10 ^ 6), Num (- (32584001 / 10 ^ 6)))
   \<and> emitted (click (latLngOf dropped) kampalaPin)
       = [(Num (318700 / 10 ^ 6), Num (- (32584001 / 10 ^ 6)))]"
proof -
  let ?d = "dragend (latLngOf dropped) kampalaPin" and ?c = "click (latLngOf dropped) kampalaPin"
  have b: "\<bar>fst dropped\<bar> < 10 ^ 21" "\<bar>snd dropped\<bar> < 10 ^ 21"
    by (simp_all add: dropped_def)
  have l: "latLngOf dropped = (Num (fst dropped), Num (snd dropped))"
    by (simp add: latLngOf_def)
  have h: "hasOnPinChange kampalaPin" "emitted kampalaPin = []"
    by (simp_all add: kampalaPin_def)
  have t: "toFixedReal 6 (fst dropped) = 318700 / 10 ^ 6"
    "toFixedReal 6 (snd dropped) = - (32584001 / 10 ^ 6)"
    by (simp_all add: dropped_def toFixedReal_def)
  have p: "pinCoords ?d = (Num (318700 / 10 ^ 6), Num (- (32584001 / 10 ^ 6)))"
    "pinCoords ?c = (Num (318700 / 10 ^ 6), Num (- (32584001 / 10 ^ 6)))"
    unfolding l dragend_def click_def updatePin_pinCoords t by simp_all
  from updatePin_six_decimals[OF l b, of ?d kampalaPin]
  obtain cx cy where d: "pinCoords ?d = (Num cx, Num cy)"
    "roundedTo6 (fst dropped) cx" "roundedTo6 (snd dropped) cy"
    "emitted ?d = (if hasOnPinChange kampalaPin then emitted kampalaPin @ [pinCoords ?d]
                   else emitted kampalaPin)"
    by blast
  have "Num cx = Num (318700 / 10 ^ 6)" "Num cy = Num (- (32584001 / 10 ^ 6))"
    using d(1) unfolding p(1) by simp_all
  then have "cx = 318700 / 10 ^ 6" "cy = - (32584001 / 10 ^ 6)"
    by (simp_all only: jsnum.inject)
  then have r: "roundedTo6 (fst dropped) (318700 / 10 ^ 6)"
    "roundedTo6 (snd dropped) (- (32584001 / 10 ^ 6))"
    using d(2,3) by (simp_all only:)
  have ed: "emitted ?d = [(Num (318700 / 10 ^ 6), Num (- (32584001 / 10 ^ 6)))]"
    using d(4) h unfolding p(1) by (simp only: if_True append_Nil)
  from updatePin_six_decimals[OF l b, of ?c kampalaPin]
  have "emitted ?c = (if hasOnPinChange kampalaPin then emitted kampalaPin @ [pinCoords ?c]
                   else emitted kampalaPin)"
    by blast
  then have ec: "emitted ?c = [(Num (318700 / 10 ^ 6), Num (- (32584001 / 10 ^ 6)))]"
    using h unfolding p(2) by (simp only: if_True append_Nil)
  from b p r ed ec show ?thesis by (intro conjI)
qed

section \<open>Properties of the geocode handler\<close>

text \<open>The handler never throws, whatever the service does.\<close>

lemma handleGeocode_resolves: "fst (handleGeocode reply st) = Inr ()"
  by (cases reply) (auto simp: handleGeocode_def tryGeocode_def Let_def split: list.splits)

text \<open>
  C5, as stated, fails in its last part: an empty result set is not logged. The handler
  passes it over without a console entry and without a toast.
\<close>

theorem handleGeocode_empty_silent_counterexample:
  "geocodeFails (Body [])
   \<and> consoleErrors (snd (handleGeocode (Body []) kabalagala)) = []
   \<and> toasts (snd (handleGeocode (Body []) kabalagala)) = []"
  by (simp add: geocodeFails_def handleGeocode_def tryGeocode_def kabalagala_def Let_def)

text \<open>
  C5, amended. When the lookup fails (\<open>fetch\<close> rejects, the body cannot be read, or
  the result set is empty), the handler leaves the form, and so the stored \<open>lat\<close> and
  \<open>lng\<close>, unchanged, sends no second request, shows no toast and returns normally. A
  rejection is written to the console; an empty result set is not.
\<close>

theorem handleGeocode_failure:
  assumes "geocodeFails reply"
  shows "fst (handleGeocode reply st) = Inr ()
         \<and> form (snd (handleGeocode reply st)) = form st
         \<and> toasts (snd (handleGeocode reply st)) = toasts st
         \<and> length (requests (snd (handleGeocode reply st))) \<le> length (requests st) + 1
         \<and> consoleErrors (snd (handleGeocode reply st))
             = (if formAddress (form st) = [] then consoleErrors st
                else (case reply of
                        FetchRejects \<Rightarrow> consoleErrors st @ [NetworkError]
                      | JsonRejects \<Rightarrow> consoleErrors st @ [BodyError]
                      | Body data \<Rightarrow> consoleErrors st))"
  using assms
  by (auto simp: geocodeFails_def handleGeocode_def tryGeocode_def Let_def)

text \<open>
  A network failure while looking up "Kabalagala, Kampala, Uganda".
\<close>

theorem handleGeocode_failure_witness:
  "geocodeFails FetchRejects
   \<and> fst (handleGeocode FetchRejects kabalagala) = Inr ()
   \<and> form (snd (handleGeocode FetchRejects kabalagala)) = form kabalagala
   \<and> requests (snd (handleGeocode FetchRejects kabalagala)) = [''Kabalagala, Kampala, Uganda'']
   \<and> consoleErrors (snd (handleGeocode FetchRejects kabalagala)) = [NetworkError]"
proof -
  have f: "geocodeFails FetchRejects" by (simp add: geocodeFails_def)
  have r: "requests (snd (handleGeocode FetchRejects kabalagala)) = [''Kabalagala, Kampala, Uganda'']"
    by (simp add: handleGeocode_def tryGeocode_def kabalagala_def Let_def)
  have a: "formAddress (form kabalagala) \<noteq> []" "consoleErrors kabalagala = []"
    by (simp_all add: kabalagala_def)
  from handleGeocode_failure[OF f, of kabalagala] f r a show ?thesis by simp
qed

end
